theory Spec2Isabelle
  imports Main "HOL-Library.Sublist" "HOL-Library.Word"
begin

unbundle bit_operations_syntax

chapter \<open>HealthVault: ledger-backed integrity commitment and verification\<close>

text \<open>
  A shallow embedding of the Algorand service of the application
  (\<^verbatim>\<open>AlgorandService\<close>, \<^verbatim>\<open>EnhancedAlgorandService\<close>,
  \<^verbatim>\<open>AlgorandBlockchainService\<close> and the exported wrappers around them):
  account generation and validation, funding, the transaction note, the commit with its
  retries, and the verification of a note against a data hash.

  Conventions.
  \<^item> A JavaScript string is a sequence of UTF-16 code units. The type \<open>string\<close>
    stands for the strings whose code units are all below 256, the character \<open>c\<close>
    being the code unit \<open>of_char c\<close>. On these strings \<^verbatim>\<open>TextEncoder\<close>
    followed by \<^verbatim>\<open>TextDecoder\<close> is the identity, so a note read back from
    the ledger is the note that was written.
  \<^item> Values produced by \<^verbatim>\<open>JSON.parse\<close> and objects returned by the node
    are values of type \<open>jsval\<close>; their strings are lists of code units
    (\<open>nat list\<close>), since an escape \<^verbatim>\<open>\uXXXX\<close> can denote any unit.
  \<^item> An exception is a value \<open>Inl e\<close> of a sum type; \<^verbatim>\<open>try/catch\<close>
    is a case distinction on it.
  \<^item> The network (node, faucets, the SDK's key generation) is a parameter of the
    functions that use it; what a function did to the network is returned with its result.
\<close>

section \<open>JavaScript strings\<close>

definition dq :: char where
  "dq = CHR 0x22"

definition bs :: char where
  "bs = CHR 0x5C"

text \<open>\<^verbatim>\<open>s.startsWith(t)\<close>, \<^verbatim>\<open>s.includes(t)\<close>.\<close>

definition js_startsWith :: "string \<Rightarrow> string \<Rightarrow> bool" where
  "js_startsWith s t = prefix t s"

fun js_includes :: "string \<Rightarrow> string \<Rightarrow> bool" where
  "js_includes [] t = (t = [])"
| "js_includes (c # cs) t = (prefix t (c # cs) \<or> js_includes cs t)"

text \<open>
  \<^verbatim>\<open>s.trim()\<close> removes white space and line terminators at both ends; among the
  code units below 256 these are 9 to 13, 32 and 160.
\<close>

definition is_space :: "char \<Rightarrow> bool" where
  "is_space c = ((of_char c :: nat) \<in> {9, 10, 11, 12, 13, 32, 160})"

definition js_trim :: "string \<Rightarrow> string" where
  "js_trim s = rev (dropWhile is_space (rev (dropWhile is_space s)))"

text \<open>
  \<^verbatim>\<open>s.split(sep)\<close> for a separator that is not empty: the occurrences of
  \<open>sep\<close> are found from left to right, without overlap.
\<close>

fun js_split :: "string \<Rightarrow> string \<Rightarrow> string list" where
  "js_split sep [] = [[]]"
| "js_split sep (c # cs) =
     (if sep \<noteq> [] \<and> prefix sep (c # cs)
      then [] # js_split sep (drop (length sep) (c # cs))
      else (case js_split sep cs of [] \<Rightarrow> [[c]] | p # ps \<Rightarrow> (c # p) # ps))"

text \<open>The code units of a string of type \<open>string\<close>.\<close>

definition cu :: "string \<Rightarrow> nat list" where
  "cu s = map of_char s"

text \<open>
  The length in bytes of \<^verbatim>\<open>new TextEncoder().encode(s)\<close>: UTF-8 writes a code
  unit below 128 as one byte and a unit from 128 to 255 as two.
\<close>

definition utf8_length :: "string \<Rightarrow> nat" where
  "utf8_length s = sum_list (map (\<lambda>c. if (of_char c :: nat) < 128 then 1 else 2) s)"

section \<open>JSON\<close>

subsection \<open>Values\<close>

text \<open>
  A number is \<open>Num m e\<close>, standing for \<open>m * 10 ^ e\<close>. An object lists its own
  properties; where \<^verbatim>\<open>JSON.parse\<close> meets a key twice, the later member is the
  one a property access reads. \<open>Bytes\<close> is a \<^verbatim>\<open>Uint8Array\<close>.
\<close>

datatype jsval =
    Undefined
  | Null
  | Bool bool
  | Num int int
  | Str "nat list"
  | Bytes "nat list"
  | Arr "jsval list"
  | Obj "(nat list \<times> jsval) list"

datatype error = Error string

text \<open>Truthiness (\<^verbatim>\<open>if (v)\<close>, \<^verbatim>\<open>!v\<close>, \<^verbatim>\<open>a && b\<close>).\<close>

fun truthy :: "jsval \<Rightarrow> bool" where
  "truthy Undefined = False"
| "truthy Null = False"
| "truthy (Bool b) = b"
| "truthy (Num m e) = (m \<noteq> 0)"
| "truthy (Str s) = (s \<noteq> [])"
| "truthy (Bytes b) = True"
| "truthy (Arr xs) = True"
| "truthy (Obj kvs) = True"

text \<open>
  \<^verbatim>\<open>v.key\<close> and \<^verbatim>\<open>v['key']\<close> for the keys the service reads
  (\<^verbatim>\<open>type\<close>, \<^verbatim>\<open>hash\<close>, \<^verbatim>\<open>note\<close>, \<^verbatim>\<open>txn\<close>,
  \<^verbatim>\<open>transaction\<close>, \<^verbatim>\<open>confirmed-round\<close>, \<^verbatim>\<open>addr\<close>,
  \<^verbatim>\<open>sk\<close>), none of which is a property of
  a string, a number, a boolean or an array: reading a property of \<^verbatim>\<open>null\<close> or
  \<^verbatim>\<open>undefined\<close> throws a TypeError, an object yields its member or
  \<^verbatim>\<open>undefined\<close>, every other value yields \<^verbatim>\<open>undefined\<close>.
\<close>

fun get_prop :: "jsval \<Rightarrow> string \<Rightarrow> error + jsval" where
  "get_prop Undefined k = Inl (Error ''TypeError'')"
| "get_prop Null k = Inl (Error ''TypeError'')"
| "get_prop (Obj kvs) k = (case map_of (rev kvs) (cu k) of None \<Rightarrow> Inr Undefined | Some v \<Rightarrow> Inr v)"
| "get_prop v k = Inr Undefined"

subsection \<open>\<^verbatim>\<open>JSON.stringify\<close>\<close>

text \<open>Numbers: a non-negative integer below \<open>10^21\<close> is written in decimal digits.\<close>

definition digit_char :: "nat \<Rightarrow> char" where
  "digit_char n = ''0123456789'' ! (n mod 10)"

fun show_nat :: "nat \<Rightarrow> string" where
  "show_nat n = (if n < 10 then [digit_char n] else show_nat (n div 10) @ [digit_char (n mod 10)])"

declare show_nat.simps [simp del]

text \<open>
  Strings (QuoteJSONString): the quote, the backslash and the control characters are
  escaped, every other code unit below 256 is written as it is.
\<close>

definition hex_digit :: "nat \<Rightarrow> char" where
  "hex_digit n = ''0123456789abcdef'' ! (n mod 16)"

definition quote_unit :: "char \<Rightarrow> string" where
  "quote_unit c =
     (if c = CHR 0x08 then [bs, CHR ''b'']
      else if c = CHR 0x09 then [bs, CHR ''t'']
      else if c = CHR 0x0A then [bs, CHR ''n'']
      else if c = CHR 0x0C then [bs, CHR ''f'']
      else if c = CHR 0x0D then [bs, CHR ''r'']
      else if c = dq then [bs, dq]
      else if c = bs then [bs, bs]
      else if (of_char c :: nat) < 32
        then [bs, CHR ''u'', CHR ''0'', CHR ''0'',
              hex_digit (of_char c div 16), hex_digit (of_char c mod 16)]
      else [c])"

definition quote_json :: "string \<Rightarrow> string" where
  "quote_json s = dq # concat (map quote_unit s) @ [dq]"

subsection \<open>\<^verbatim>\<open>JSON.parse\<close>: the lexer\<close>

datatype token =
    TLBrace | TRBrace | TLBrack | TRBrack | TColon | TComma
  | TStr "nat list" | TNum int int | TTrue | TFalse | TNull

definition is_json_ws :: "char \<Rightarrow> bool" where
  "is_json_ws c = (c = CHR 0x20 \<or> c = CHR 0x09 \<or> c = CHR 0x0A \<or> c = CHR 0x0D)"

definition is_digit :: "char \<Rightarrow> bool" where
  "is_digit c = (48 \<le> (of_char c :: nat) \<and> (of_char c :: nat) \<le> 57)"

definition digit_val :: "char \<Rightarrow> nat" where
  "digit_val c = of_char c - 48"

definition hex_val :: "char \<Rightarrow> nat option" where
  "hex_val c =
     (let n = (of_char c :: nat) in
      if 48 \<le> n \<and> n \<le> 57 then Some (n - 48)
      else if 97 \<le> n \<and> n \<le> 102 then Some (n - 87)
      else if 65 \<le> n \<and> n \<le> 70 then Some (n - 55)
      else None)"

text \<open>The character after a backslash, other than \<^verbatim>\<open>u\<close>.\<close>

definition unescape :: "char \<Rightarrow> nat option" where
  "unescape c =
     (if c = dq then Some 0x22
      else if c = bs then Some 0x5C
      else if c = CHR ''/'' then Some 0x2F
      else if c = CHR ''b'' then Some 0x08
      else if c = CHR ''f'' then Some 0x0C
      else if c = CHR ''n'' then Some 0x0A
      else if c = CHR ''r'' then Some 0x0D
      else if c = CHR ''t'' then Some 0x09
      else None)"

text \<open>
  A number is lexed as the longest run of the characters a number is made of, which must
  then be a number of the grammar
  \<^verbatim>\<open>-? (0 | [1-9][0-9]*) (. [0-9]+)? ([eE] [+-]? [0-9]+)?\<close>.
  (Where the run is longer than the number at its start, the character after the number
  is one no JSON text has there, so \<^verbatim>\<open>JSON.parse\<close> fails as well.)
\<close>

definition is_num_char :: "char \<Rightarrow> bool" where
  "is_num_char c = (is_digit c \<or> c = CHR ''-'' \<or> c = CHR ''+'' \<or> c = CHR ''.''
                     \<or> c = CHR ''e'' \<or> c = CHR ''E'')"

definition nat_of_digits :: "string \<Rightarrow> nat" where
  "nat_of_digits ds = foldl (\<lambda>n c. 10 * n + digit_val c) 0 ds"

definition strip_prefix_char :: "char \<Rightarrow> string \<Rightarrow> (bool \<times> string)" where
  "strip_prefix_char c s = (case s of [] \<Rightarrow> (False, []) | x # xs \<Rightarrow> if x = c then (True, xs) else (False, s))"

text \<open>The fraction: nothing, or a point and at least one digit.\<close>

definition parse_fraction :: "string \<Rightarrow> (string \<times> string) option" where
  "parse_fraction r =
     (case r of
        [] \<Rightarrow> Some ([], [])
      | c # cs \<Rightarrow>
          if c \<noteq> CHR ''.'' then Some ([], r)
          else if takeWhile is_digit cs = [] then None
          else Some (takeWhile is_digit cs, dropWhile is_digit cs))"

text \<open>The exponent: nothing, or \<^verbatim>\<open>e\<close> or \<^verbatim>\<open>E\<close>, a sign or none, and at least one digit.\<close>

definition parse_exponent :: "string \<Rightarrow> (int \<times> string) option" where
  "parse_exponent r =
     (case r of
        [] \<Rightarrow> Some (0, [])
      | c # cs \<Rightarrow>
          if c \<noteq> CHR ''e'' \<and> c \<noteq> CHR ''E'' then Some (0, r)
          else (case strip_prefix_char (CHR ''-'') cs of
                  (neg, r1) \<Rightarrow>
                    (case (if neg then (False, r1) else strip_prefix_char (CHR ''+'') r1) of
                       (pos, r2) \<Rightarrow>
                         if takeWhile is_digit r2 = [] then None
                         else Some (if neg then - int (nat_of_digits (takeWhile is_digit r2))
                                    else int (nat_of_digits (takeWhile is_digit r2)),
                                    dropWhile is_digit r2))))"

definition parse_number :: "string \<Rightarrow> (int \<times> int) option" where
  "parse_number chunk =
     (case strip_prefix_char (CHR ''-'') chunk of
        (neg, r0) \<Rightarrow>
          if takeWhile is_digit r0 = []
             \<or> (1 < length (takeWhile is_digit r0) \<and> hd r0 = CHR ''0'') then None
          else (case parse_fraction (dropWhile is_digit r0) of
                  None \<Rightarrow> None
                | Some (fp, r1) \<Rightarrow>
                    (case parse_exponent r1 of
                       None \<Rightarrow> None
                     | Some (ex, r2) \<Rightarrow>
                         if r2 \<noteq> [] then None
                         else Some (if neg then - int (nat_of_digits (takeWhile is_digit r0 @ fp))
                                    else int (nat_of_digits (takeWhile is_digit r0 @ fp)),
                                    ex - int (length fp)))))"

datatype lexmode =
    LStart
  | LStr "nat list"
  | LEsc "nat list"
  | LUni nat nat "nat list"
  | LNum string
  | LLit string token

definition lex_start :: "char \<Rightarrow> (token list \<times> lexmode) option" where
  "lex_start c =
     (if is_json_ws c then Some ([], LStart)
      else if c = CHR ''{'' then Some ([TLBrace], LStart)
      else if c = CHR ''}'' then Some ([TRBrace], LStart)
      else if c = CHR ''['' then Some ([TLBrack], LStart)
      else if c = CHR '']'' then Some ([TRBrack], LStart)
      else if c = CHR '':'' then Some ([TColon], LStart)
      else if c = CHR '','' then Some ([TComma], LStart)
      else if c = dq then Some ([], LStr [])
      else if c = CHR ''t'' then Some ([], LLit ''rue'' TTrue)
      else if c = CHR ''f'' then Some ([], LLit ''alse'' TFalse)
      else if c = CHR ''n'' then Some ([], LLit ''ull'' TNull)
      else if is_num_char c then Some ([], LNum [c])
      else None)"

fun lex_step :: "lexmode \<Rightarrow> char \<Rightarrow> (token list \<times> lexmode) option" where
  "lex_step LStart c = lex_start c"
| "lex_step (LStr acc) c =
     (if c = dq then Some ([TStr (rev acc)], LStart)
      else if c = bs then Some ([], LEsc acc)
      else if (of_char c :: nat) < 32 then None
      else Some ([], LStr (of_char c # acc)))"
| "lex_step (LEsc acc) c =
     (if c = CHR ''u'' then Some ([], LUni 0 0 acc)
      else (case unescape c of None \<Rightarrow> None | Some n \<Rightarrow> Some ([], LStr (n # acc))))"
| "lex_step (LUni k v acc) c =
     (case hex_val c of
        None \<Rightarrow> None
      | Some d \<Rightarrow> if k = 3 then Some ([], LStr ((16 * v + d) # acc))
                  else Some ([], LUni (k + 1) (16 * v + d) acc))"
| "lex_step (LNum chunk) c =
     (if is_num_char c then Some ([], LNum (c # chunk))
      else (case parse_number (rev chunk) of
              None \<Rightarrow> None
            | Some (m, e) \<Rightarrow>
                (case lex_start c of
                   None \<Rightarrow> None
                 | Some (ts, md) \<Rightarrow> Some (TNum m e # ts, md))))"
| "lex_step (LLit rest tok) c =
     (case rest of
        [] \<Rightarrow> None
      | r # rs \<Rightarrow> if c \<noteq> r then None
                  else if rs = [] then Some ([tok], LStart)
                  else Some ([], LLit rs tok))"

fun lex_run :: "lexmode \<Rightarrow> string \<Rightarrow> (token list \<times> lexmode) option" where
  "lex_run md [] = Some ([], md)"
| "lex_run md (c # cs) =
     (case lex_step md c of
        None \<Rightarrow> None
      | Some (ts, md') \<Rightarrow>
          (case lex_run md' cs of
             None \<Rightarrow> None
           | Some (ts', md'') \<Rightarrow> Some (ts @ ts', md'')))"

fun lex_finish :: "lexmode \<Rightarrow> token list option" where
  "lex_finish LStart = Some []"
| "lex_finish (LNum chunk) =
     (case parse_number (rev chunk) of None \<Rightarrow> None | Some (m, e) \<Rightarrow> Some [TNum m e])"
| "lex_finish md = None"

definition tokenize :: "string \<Rightarrow> token list option" where
  "tokenize s =
     (case lex_run LStart s of
        None \<Rightarrow> None
      | Some (ts, md) \<Rightarrow>
          (case lex_finish md of None \<Rightarrow> None | Some ts' \<Rightarrow> Some (ts @ ts')))"

subsection \<open>\<^verbatim>\<open>JSON.parse\<close>: the parser\<close>

text \<open>
  The parser reads the tokens one by one. A context is an array or an object that is
  open, with the elements read so far (latest first); an open object also holds the key
  whose value is being read.
\<close>

datatype ctx =
    CArr "jsval list"
  | CObj "(nat list \<times> jsval) list" "nat list"

datatype pstate =
    SVal "ctx list"
  | SArr0 "ctx list"
  | SObj0 "ctx list"
  | SKey "(nat list \<times> jsval) list" "ctx list"
  | SCol "(nat list \<times> jsval) list" "nat list" "ctx list"
  | SArrN "jsval list" "ctx list"
  | SObjN "(nat list \<times> jsval) list" "ctx list"
  | SEnd jsval

fun deliver :: "jsval \<Rightarrow> ctx list \<Rightarrow> pstate" where
  "deliver v [] = SEnd v"
| "deliver v (CArr els # cs) = SArrN (v # els) cs"
| "deliver v (CObj kvs k # cs) = SObjN ((k, v) # kvs) cs"

fun pvalue :: "ctx list \<Rightarrow> token \<Rightarrow> pstate option" where
  "pvalue cs TLBrace = Some (SObj0 cs)"
| "pvalue cs TLBrack = Some (SArr0 cs)"
| "pvalue cs (TStr s) = Some (deliver (Str s) cs)"
| "pvalue cs (TNum m e) = Some (deliver (Num m e) cs)"
| "pvalue cs TTrue = Some (deliver (Bool True) cs)"
| "pvalue cs TFalse = Some (deliver (Bool False) cs)"
| "pvalue cs TNull = Some (deliver Null cs)"
| "pvalue cs t = None"

fun pstep :: "pstate \<Rightarrow> token \<Rightarrow> pstate option" where
  "pstep (SVal cs) t = pvalue cs t"
| "pstep (SArr0 cs) t = (if t = TRBrack then Some (deliver (Arr []) cs) else pvalue (CArr [] # cs) t)"
| "pstep (SObj0 cs) t =
     (case t of TRBrace \<Rightarrow> Some (deliver (Obj []) cs) | TStr k \<Rightarrow> Some (SCol [] k cs) | _ \<Rightarrow> None)"
| "pstep (SKey kvs cs) t = (case t of TStr k \<Rightarrow> Some (SCol kvs k cs) | _ \<Rightarrow> None)"
| "pstep (SCol kvs k cs) t = (if t = TColon then Some (SVal (CObj kvs k # cs)) else None)"
| "pstep (SArrN els cs) t =
     (if t = TComma then Some (SVal (CArr els # cs))
      else if t = TRBrack then Some (deliver (Arr (rev els)) cs)
      else None)"
| "pstep (SObjN kvs cs) t =
     (if t = TComma then Some (SKey kvs cs)
      else if t = TRBrace then Some (deliver (Obj (rev kvs)) cs)
      else None)"
| "pstep (SEnd v) t = None"

fun parse_tokens :: "pstate \<Rightarrow> token list \<Rightarrow> jsval option" where
  "parse_tokens st [] = (case st of SEnd v \<Rightarrow> Some v | _ \<Rightarrow> None)"
| "parse_tokens st (t # ts) =
     (case pstep st t of None \<Rightarrow> None | Some st' \<Rightarrow> parse_tokens st' ts)"

text \<open>\<^verbatim>\<open>JSON.parse(s)\<close>; \<open>None\<close> is the SyntaxError.\<close>

definition JSON_parse :: "string \<Rightarrow> jsval option" where
  "JSON_parse s = (case tokenize s of None \<Rightarrow> None | Some ts \<Rightarrow> parse_tokens (SVal []) ts)"

section \<open>The transaction note\<close>

subsection \<open>\<^verbatim>\<open>storeHealthData\<close>: building the note\<close>

text \<open>
  \<^verbatim>\<open>JSON.stringify({type: 'HEALTH_DATA', hash: dataHash, timestamp: Date.now(),
  version: '1.0', app: 'HealthGuardian'})\<close>; \<open>ts\<close> is the value of
  \<^verbatim>\<open>Date.now()\<close>.
\<close>

definition jsonNote :: "string \<Rightarrow> nat \<Rightarrow> string" where
  "jsonNote dataHash ts =
     ''{'' @ quote_json ''type'' @ '':'' @ quote_json ''HEALTH_DATA''
     @ '','' @ quote_json ''hash'' @ '':'' @ quote_json dataHash
     @ '','' @ quote_json ''timestamp'' @ '':'' @ show_nat ts
     @ '','' @ quote_json ''version'' @ '':'' @ quote_json ''1.0''
     @ '','' @ quote_json ''app'' @ '':'' @ quote_json ''HealthGuardian'' @ ''}''"

definition legacyNote :: "string \<Rightarrow> string" where
  "legacyNote dataHash = ''HEALTH_DATA:'' @ dataHash"

definition simpleNote :: "string \<Rightarrow> string" where
  "simpleNote dataHash = ''HG_'' @ dataHash"

definition separator :: string where
  "separator = ''|||''"

definition combinedNote :: "string \<Rightarrow> nat \<Rightarrow> string" where
  "combinedNote dataHash ts =
     jsonNote dataHash ts @ separator @ legacyNote dataHash @ separator @ simpleNote dataHash"

definition finalNote :: "string \<Rightarrow> nat \<Rightarrow> string" where
  "finalNote dataHash ts =
     (if 1000 < length (combinedNote dataHash ts)
      then jsonNote dataHash ts @ separator @ legacyNote dataHash
      else combinedNote dataHash ts)"

text \<open>
  The tokens that the lexer of \<^verbatim>\<open>JSON.parse\<close> finds in the JSON format of the
  note.
\<close>

definition note_tokens :: "string \<Rightarrow> nat \<Rightarrow> token list" where
  "note_tokens f ts =
     [TLBrace, TStr (cu ''type''), TColon, TStr (cu ''HEALTH_DATA''), TComma,
      TStr (cu ''hash''), TColon, TStr (cu f), TComma,
      TStr (cu ''timestamp''), TColon, TNum (int ts) 0, TComma,
      TStr (cu ''version''), TColon, TStr (cu ''1.0''), TComma,
      TStr (cu ''app''), TColon, TStr (cu ''HealthGuardian''), TRBrace]"

text \<open>
  The data hashes that \<^verbatim>\<open>createHealthDataHash\<close> computes with SHA-256:
  \<^verbatim>\<open>hashArray.map((b) => b.toString(16).padStart(2, '0')).join('')\<close> writes the 32
  bytes of the digest as 64 hexadecimal digits in lower case.
\<close>

definition sha256_hex :: "string \<Rightarrow> bool" where
  "sha256_hex h = (length h = 64 \<and> list_all (\<lambda>c. c \<in> set ''0123456789abcdef'') h)"

text \<open>The size of \<^verbatim>\<open>noteBytes\<close>, the note attached to the transaction.\<close>

definition noteBytes_length :: "string \<Rightarrow> nat \<Rightarrow> nat" where
  "noteBytes_length dataHash ts = utf8_length (finalNote dataHash ts)"

subsection \<open>\<^verbatim>\<open>verifyNotePart\<close> and the check of a decoded note\<close>

text \<open>
  The JSON branch of \<^verbatim>\<open>verifyNotePart\<close>: the part is parsed and its
  \<^verbatim>\<open>type\<close> and \<^verbatim>\<open>hash\<close> are compared; a SyntaxError or a TypeError is
  caught and the next format is tried.
\<close>

definition json_format_ok :: "string \<Rightarrow> string \<Rightarrow> bool" where
  "json_format_ok part expectedHash =
     (case JSON_parse part of
        None \<Rightarrow> False
      | Some noteData \<Rightarrow>
          (case get_prop noteData ''type'' of
             Inl e \<Rightarrow> False
           | Inr t \<Rightarrow>
               if t \<noteq> Str (cu ''HEALTH_DATA'') then False
               else (case get_prop noteData ''hash'' of
                       Inl e \<Rightarrow> False
                     | Inr h \<Rightarrow> h = Str (cu expectedHash))))"

definition verifyNotePart :: "string \<Rightarrow> string \<Rightarrow> bool" where
  "verifyNotePart part expectedHash =
     (if js_startsWith part ''{'' \<and> json_format_ok part expectedHash then True
      else if js_includes part ''HEALTH_DATA:''
              \<and> (part = ''HEALTH_DATA:'' @ expectedHash
                   \<or> js_includes part (''HEALTH_DATA:'' @ expectedHash)) then True
      else if js_startsWith part ''HG_''
              \<and> (part = ''HG_'' @ expectedHash \<or> js_includes part (''HG_'' @ expectedHash)) then True
      else if js_includes part expectedHash then True
      else False)"

text \<open>
  The loop over the parts of a note:
  \<^verbatim>\<open>for (...) { if (await this.verifyNotePart(parts[i].trim(), dataHash)) {
  verificationResult = true; break; } }\<close>
\<close>

fun verifyParts :: "string list \<Rightarrow> string \<Rightarrow> bool" where
  "verifyParts [] dataHash = False"
| "verifyParts (p # ps) dataHash =
     (if verifyNotePart (js_trim p) dataHash then True else verifyParts ps dataHash)"

text \<open>
  The check of the decoded note in \<^verbatim>\<open>verifyHealthData\<close>: the parts separated by
  \<^verbatim>\<open>|||\<close>, then the parts separated by \<^verbatim>\<open>|\<close>, then the note as a whole.
\<close>

definition verifyNoteString :: "string \<Rightarrow> string \<Rightarrow> bool" where
  "verifyNoteString noteString dataHash =
     (let r1 = (if js_includes noteString separator
                then verifyParts (js_split separator noteString) dataHash else False);
          r2 = (if \<not> r1 \<and> js_includes noteString ''|''
                then verifyParts (js_split ''|'' noteString) dataHash else r1)
      in if \<not> r2 then verifyNotePart noteString dataHash else r2)"

section \<open>Accounts\<close>

subsection \<open>Validation\<close>

text \<open>
  The candidate is any value (\<^verbatim>\<open>account: any\<close>). \<^verbatim>\<open>typeof v === 'object'\<close>,
  \<^verbatim>\<open>typeof v === 'string'\<close>, \<^verbatim>\<open>v instanceof Uint8Array\<close> and
  \<^verbatim>\<open>v.length\<close> of a string or a byte array:
\<close>

definition is_object :: "jsval \<Rightarrow> bool" where
  "is_object v = (case v of Null \<Rightarrow> True | Bytes b \<Rightarrow> True | Arr xs \<Rightarrow> True | Obj kvs \<Rightarrow> True | _ \<Rightarrow> False)"

definition is_string :: "jsval \<Rightarrow> bool" where
  "is_string v = (case v of Str s \<Rightarrow> True | _ \<Rightarrow> False)"

definition is_Uint8Array :: "jsval \<Rightarrow> bool" where
  "is_Uint8Array v = (case v of Bytes b \<Rightarrow> True | _ \<Rightarrow> False)"

definition units :: "jsval \<Rightarrow> nat list" where
  "units v = (case v of Str s \<Rightarrow> s | Bytes b \<Rightarrow> b | _ \<Rightarrow> [])"

text \<open>
  \<^verbatim>\<open>validateAccount\<close> of \<^verbatim>\<open>AlgorandService\<close> and of
  \<^verbatim>\<open>EnhancedAlgorandService\<close> (the two are the same text). The parameter
  \<open>decodeAddress\<close> tells whether \<^verbatim>\<open>algosdk.decodeAddress\<close> returns (the address
  is base32 of a public key and its checksum) or throws. An exception inside the function
  is caught and \<^verbatim>\<open>false\<close> returned.
\<close>

definition validateAccount :: "(nat list \<Rightarrow> bool) \<Rightarrow> jsval \<Rightarrow> bool" where
  "validateAccount decodeAddress account =
     (if \<not> truthy account \<or> \<not> is_object account then False
      else case get_prop account ''addr'' of
        Inl e \<Rightarrow> False
      | Inr a \<Rightarrow>
          if \<not> truthy a \<or> \<not> is_string a then False
          else if length (units a) \<noteq> 58 then False
          else case get_prop account ''sk'' of
            Inl e \<Rightarrow> False
          | Inr k \<Rightarrow>
              if \<not> truthy k \<or> \<not> is_Uint8Array k then False
              else if length (units k) \<noteq> 64 then False
              else if \<not> prefix (cu ''AAAAAAA'') (units a) \<and> \<not> decodeAddress (units a) then False
              else True)"

text \<open>\<^verbatim>\<open>isValidAccount\<close> of \<^verbatim>\<open>AlgorandBlockchainService\<close>.\<close>

definition isValidAccount :: "(nat list \<Rightarrow> bool) \<Rightarrow> jsval \<Rightarrow> bool" where
  "isValidAccount decodeAddress account =
     (if \<not> truthy account then False
      else case get_prop account ''addr'' of
        Inl e \<Rightarrow> False
      | Inr a \<Rightarrow>
          if \<not> truthy a \<or> \<not> is_string a then False
          else if length (units a) \<noteq> 58 then False
          else case get_prop account ''sk'' of
            Inl e \<Rightarrow> False
          | Inr k \<Rightarrow>
              if \<not> truthy k \<or> \<not> is_Uint8Array k \<or> length (units k) \<noteq> 64 then False
              else if \<not> decodeAddress (units a) then False
              else True)"

subsection \<open>Generation (\<^verbatim>\<open>AlgorandService.generateAccount\<close>)\<close>

record AlgorandAccount =
  addr :: jsval
  sk :: jsval
  mnemonic :: "string option"

text \<open>
  What the generation reads from outside: the SDK's \<^verbatim>\<open>generateAccount\<close> and
  \<^verbatim>\<open>mnemonicToSecretKey\<close> (each returns a value or throws), the results of the
  two calls of \<^verbatim>\<open>generateSecureMnemonic\<close>, the seed string
  \<^verbatim>\<open>`${timestamp}-${random}-${Platform.OS}`\<close> of the fallback, and the values of
  \<^verbatim>\<open>Date.now()\<close> read while the mock key is filled.
\<close>

record gen_env =
  sdk_generateAccount :: "error + jsval"
  sdk_mnemonicToSecretKey :: "string \<Rightarrow> error + jsval"
  sdk_decodeAddress :: "nat list \<Rightarrow> bool"
  secureMnemonic :: "nat \<Rightarrow> error + string"
  fallback_seed :: string
  mock_now :: "nat \<Rightarrow> nat"

text \<open>\<^verbatim>\<open>{addr: account.addr, sk: account.sk, mnemonic}\<close>\<close>

definition account_of :: "jsval \<Rightarrow> string option \<Rightarrow> error + AlgorandAccount" where
  "account_of account m =
     (case get_prop account ''addr'' of
        Inl e \<Rightarrow> Inl e
      | Inr a \<Rightarrow>
          (case get_prop account ''sk'' of
             Inl e \<Rightarrow> Inl e
           | Inr k \<Rightarrow> Inr \<lparr>addr = a, sk = k, mnemonic = m\<rparr>))"

text \<open>The body of a \<^verbatim>\<open>try\<close> block that validates a candidate and throws when it fails.\<close>

definition validated :: "gen_env \<Rightarrow> jsval \<Rightarrow> string option \<Rightarrow> string \<Rightarrow> error + AlgorandAccount" where
  "validated env account m msg =
     (if validateAccount (sdk_decodeAddress env) account then account_of account m
      else Inl (Error msg))"

text \<open>Method 1: direct generation.\<close>

definition generateDirect :: "gen_env \<Rightarrow> error + AlgorandAccount" where
  "generateDirect env =
     (case sdk_generateAccount env of
        Inl e \<Rightarrow> Inl e
      | Inr account \<Rightarrow> validated env account None ''Generated account failed validation'')"

text \<open>Method 2: a mnemonic of \<^verbatim>\<open>generateSecureMnemonic\<close>.\<close>

definition generateFromMnemonic :: "gen_env \<Rightarrow> error + AlgorandAccount" where
  "generateFromMnemonic env =
     (case secureMnemonic env 0 of
        Inl e \<Rightarrow> Inl e
      | Inr m \<Rightarrow>
          (case sdk_mnemonicToSecretKey env m of
             Inl e \<Rightarrow> Inl e
           | Inr account \<Rightarrow> validated env account (Some m) ''Mnemonic-based account failed validation''))"

text \<open>
  Method 3, \<^verbatim>\<open>generateAccountManually\<close>: the 32 random bytes it draws are not
  used; the account comes from a second mnemonic.
\<close>

definition generateAccountManually :: "gen_env \<Rightarrow> error + AlgorandAccount" where
  "generateAccountManually env =
     (case secureMnemonic env 1 of
        Inl e \<Rightarrow> Inl e
      | Inr m \<Rightarrow>
          (case sdk_mnemonicToSecretKey env m of
             Inl e \<Rightarrow> Inl e
           | Inr account \<Rightarrow> validated env account (Some m) ''Manually generated account failed validation''))"

text \<open>
  Method 4, \<^verbatim>\<open>generateAccountFallback\<close>. The hash of the seed is kept in 32 bits
  (\<^verbatim>\<open>hash = (hash << 5) - hash + char; hash = hash & hash\<close>); word \<open>i\<close> of the
  mnemonic is \<^verbatim>\<open>words[Math.abs(hash + i) % words.length]\<close>.
\<close>

definition seed_hash :: "string \<Rightarrow> 32 word" where
  "seed_hash seed = foldl (\<lambda>h c. push_bit 5 h - h + of_char c) 0 seed"

definition fallback_words :: "string list" where
  "fallback_words = [''abandon'', ''ability'', ''able'', ''about'', ''above'', ''absent'',
     ''absorb'', ''abstract'', ''absurd'', ''abuse'', ''access'', ''accident'']"

fun js_join :: "string \<Rightarrow> string list \<Rightarrow> string" where
  "js_join sep [] = []"
| "js_join sep [x] = x"
| "js_join sep (x # y # ys) = x @ sep @ js_join sep (y # ys)"

definition fallback_mnemonic :: "string \<Rightarrow> string" where
  "fallback_mnemonic seed =
     js_join '' ''
       (map (\<lambda>i. fallback_words ! (nat \<bar>sint (seed_hash seed) + int i\<bar> mod length fallback_words))
          [0..<12])"

text \<open>\<^verbatim>\<open>createMockAccount\<close>: the address is 58 times the letter A.\<close>

definition mockAddr :: string where
  "mockAddr = ''AAAAAAAAAAAAAAAAAAAAAAAAAAAAAAAAAAAAAAAAAAAAAAAAAAAAAAAAAA''"

definition createMockAccount :: "gen_env \<Rightarrow> AlgorandAccount" where
  "createMockAccount env =
     \<lparr>addr = Str (cu mockAddr),
      sk = Bytes (map (\<lambda>i. (i * 7 + mock_now env i) mod 256) [0..<64]),
      mnemonic = None\<rparr>"

definition generateAccountFallback :: "gen_env \<Rightarrow> error + AlgorandAccount" where
  "generateAccountFallback env =
     (let m = fallback_mnemonic (fallback_seed env);
          attempt = (case sdk_mnemonicToSecretKey env m of
                       Inl e \<Rightarrow> Inl e
                     | Inr account \<Rightarrow> validated env account (Some m) ''Fallback account failed validation'')
      in case attempt of
           Inl e \<Rightarrow> Inr (createMockAccount env)
         | Inr a \<Rightarrow> Inr a)"

text \<open>
  \<^verbatim>\<open>generateAccount\<close>: each method runs in its own \<^verbatim>\<open>try\<close>; an exception
  moves on to the next method, and after the last one the function throws.
\<close>

definition generateAccount :: "gen_env \<Rightarrow> error + AlgorandAccount" where
  "generateAccount env =
     (case generateDirect env of
        Inr a \<Rightarrow> Inr a
      | Inl e1 \<Rightarrow>
     (case generateFromMnemonic env of
        Inr a \<Rightarrow> Inr a
      | Inl e2 \<Rightarrow>
     (case generateAccountManually env of
        Inr a \<Rightarrow> Inr a
      | Inl e3 \<Rightarrow>
     (case generateAccountFallback env of
        Inr a \<Rightarrow> Inr a
      | Inl e4 \<Rightarrow> Inl (Error ''All account generation methods failed'')))))"

text \<open>
  \<^verbatim>\<open>AlgorandBlockchainService.generateAccount\<close>, the other implementation: direct
  generation, then \<^verbatim>\<open>generateAccountFromMnemonic\<close>, which throws when its account
  is invalid as well. \<open>sdk_generateMnemonic\<close> is \<^verbatim>\<open>algosdk.generateMnemonic()\<close>.
\<close>

definition generateAccountFromMnemonic :: "gen_env \<Rightarrow> (error + string) \<Rightarrow> error + jsval" where
  "generateAccountFromMnemonic env sdk_generateMnemonic =
     (let attempt =
        (case sdk_generateMnemonic of
           Inl e \<Rightarrow> Inl e
         | Inr m \<Rightarrow>
             (case sdk_mnemonicToSecretKey env m of
                Inl e \<Rightarrow> Inl e
              | Inr account \<Rightarrow>
                  if \<not> isValidAccount (sdk_decodeAddress env) account
                  then Inl (Error ''Mnemonic-based account is also invalid'')
                  else Inr account))
      in case attempt of
           Inr account \<Rightarrow> Inr account
         | Inl (Error msg) \<Rightarrow> Inl (Error (''All account generation methods failed: Error: '' @ msg)))"

definition generateAccount_bc :: "gen_env \<Rightarrow> (error + string) \<Rightarrow> error + jsval" where
  "generateAccount_bc env sdk_generateMnemonic =
     (let attempt =
        (case sdk_generateAccount env of
           Inl e \<Rightarrow> Inl e
         | Inr account \<Rightarrow>
             if \<not> isValidAccount (sdk_decodeAddress env) account
             then Inl (Error ''Generated account is invalid'')
             else Inr account)
      in case attempt of
           Inr account \<Rightarrow> Inr account
         | Inl e \<Rightarrow> generateAccountFromMnemonic env sdk_generateMnemonic)"

section \<open>The network\<close>

text \<open>
  Every request to the node or to a faucet, and every delay, is an event; a function that
  talks to the network takes the events so far and returns them with its own appended.
  The answer to a request may depend on everything that happened before: the world's
  functions take the number of events so far.
\<close>

datatype event =
    AccountInformation "nat list"
  | Fetch string
  | Sleep nat
  | GetTransactionParams
  | SendRawTransaction "nat list"
  | WaitForConfirmation string nat
  | PendingTransactionInformation string

text \<open>The URLs requested from faucets, in order.\<close>

fun requested :: "event list \<Rightarrow> string list" where
  "requested [] = []"
| "requested (Fetch u # es) = u # requested es"
| "requested (e # es) = requested es"

record http_response =
  ok :: bool
  status :: nat

text \<open>The fields of the payment \<^verbatim>\<open>makePaymentTxnWithSuggestedParamsFromObject\<close> gets.\<close>

record payment =
  from_addr :: jsval
  to_addr :: jsval
  amount :: nat
  note_field :: string
  suggestedParams :: jsval

text \<open>
  \<^item> \<open>w_accountInformation\<close>: \<^verbatim>\<open>algodClient.accountInformation(address).do()\<close>;
    the result is the \<^verbatim>\<open>amount\<close> of the account, \<open>None\<close> when there is none.
  \<^item> \<open>w_fetch\<close>: \<^verbatim>\<open>fetch(url, {method: 'POST', ...})\<close>.
  \<^item> \<open>w_signTxn\<close>: \<^verbatim>\<open>makePaymentTxnWithSuggestedParamsFromObject\<close> followed by
    \<^verbatim>\<open>signTxn(sk)\<close>; either can throw.
  \<^item> \<open>w_decode_base64\<close>: \<^verbatim>\<open>new TextDecoder().decode(new Uint8Array(Buffer.from(note,
    'base64')))\<close>; \<open>w_decode_alternative\<close>: what the \<^verbatim>\<open>catch\<close> of that does
    (the note itself when it is a string, its bytes decoded otherwise);
    \<open>w_String\<close>: \<^verbatim>\<open>String(note)\<close>.
  \<^item> \<open>w_now\<close>: \<^verbatim>\<open>Date.now()\<close>; \<open>w_toISOString\<close>:
    \<^verbatim>\<open>new Date().toISOString()\<close>; \<open>w_network\<close>: \<^verbatim>\<open>config.network\<close>.
\<close>

record world =
  w_accountInformation :: "nat \<Rightarrow> nat list \<Rightarrow> error + nat option"
  w_fetch :: "nat \<Rightarrow> string \<Rightarrow> error + http_response"
  w_getTransactionParams :: "nat \<Rightarrow> error + jsval"
  w_signTxn :: "payment \<Rightarrow> jsval \<Rightarrow> error + nat list"
  w_sendRawTransaction :: "nat \<Rightarrow> nat list \<Rightarrow> error + string"
  w_waitForConfirmation :: "nat \<Rightarrow> string \<Rightarrow> nat \<Rightarrow> error + jsval"
  w_pendingTransactionInformation :: "nat \<Rightarrow> string \<Rightarrow> error + jsval"
  w_decode_base64 :: "jsval \<Rightarrow> error + string"
  w_decode_alternative :: "jsval \<Rightarrow> error + string"
  w_String :: "jsval \<Rightarrow> string"
  w_now :: "nat \<Rightarrow> nat"
  w_toISOString :: "nat \<Rightarrow> string"
  w_decodeAddress :: "nat list \<Rightarrow> bool"
  w_network :: string

section \<open>Funding\<close>

definition minimumBalance :: nat where
  "minimumBalance = 100000"

record dispenser =
  d_name :: string
  d_url :: string

subsection \<open>\<^verbatim>\<open>AlgorandService\<close>\<close>

text \<open>
  \<^verbatim>\<open>getAccountBalance\<close>: \<^verbatim>\<open>accountInfo.amount || 0\<close>, and 0 when the
  request throws, whatever the message.
\<close>

definition getAccountBalance :: "world \<Rightarrow> nat list \<Rightarrow> event list \<Rightarrow> nat \<times> event list" where
  "getAccountBalance w address log =
     (case w_accountInformation w (length log) address of
        Inl (Error msg) \<Rightarrow>
          (if js_includes msg ''account does not exist'' then 0 else 0,
           log @ [AccountInformation address])
      | Inr None \<Rightarrow> (0, log @ [AccountInformation address])
      | Inr (Some a) \<Rightarrow> (a, log @ [AccountInformation address]))"

definition fundingSources :: "dispenser list" where
  "fundingSources =
     [\<lparr>d_name = ''Algorand Testnet Dispenser'', d_url = ''https://dispenser.testnet.aws.algodev.network/''\<rparr>,
      \<lparr>d_name = ''Algorand Bank'', d_url = ''https://bank.testnet.algorand.network/''\<rparr>]"

text \<open>
  The loop over the dispensers. A \<^verbatim>\<open>fetch\<close> that throws is caught inside the
  loop (\<^verbatim>\<open>continue\<close>); after the last dispenser the function returns
  \<^verbatim>\<open>false\<close>.
\<close>

fun fund_loop :: "world \<Rightarrow> nat list \<Rightarrow> dispenser list \<Rightarrow> event list \<Rightarrow> (error + bool) \<times> event list" where
  "fund_loop w address [] log = (Inr False, log)"
| "fund_loop w address (d # ds) log =
     (case w_fetch w (length log) (d_url d) of
        Inl e \<Rightarrow> fund_loop w address ds (log @ [Fetch (d_url d)])
      | Inr response \<Rightarrow>
          if ok response
          then (case getAccountBalance w address (log @ [Fetch (d_url d), Sleep 5000]) of
                  (newBalance, log') \<Rightarrow>
                    if minimumBalance \<le> newBalance then (Inr True, log')
                    else fund_loop w address ds log')
          else fund_loop w address ds (log @ [Fetch (d_url d)]))"

text \<open>
  \<^verbatim>\<open>ensureAccountFunded\<close>; its outer \<^verbatim>\<open>catch\<close> turns any exception into
  \<^verbatim>\<open>false\<close>. The result is \<open>Inr b\<close> when the function returns \<open>b\<close> and
  \<open>Inl e\<close> when it throws \<open>e\<close>.
\<close>

definition ensureAccountFunded :: "world \<Rightarrow> nat list \<Rightarrow> event list \<Rightarrow> (error + bool) \<times> event list" where
  "ensureAccountFunded w address log =
     (case getAccountBalance w address log of
        (currentBalance, log1) \<Rightarrow>
          (case (if minimumBalance \<le> currentBalance then (Inr True, log1)
                 else fund_loop w address fundingSources log1) of
             (Inl e, log') \<Rightarrow> (Inr False, log')
           | (Inr b, log') \<Rightarrow> (Inr b, log')))"

subsection \<open>\<^verbatim>\<open>AlgorandBlockchainService\<close>\<close>

text \<open>
  \<^verbatim>\<open>getAccountInfo\<close> answers \<^verbatim>\<open>{amount: 0}\<close> for an account that does not
  exist and throws every other error again.
\<close>

definition getAccountInfo :: "world \<Rightarrow> nat list \<Rightarrow> event list \<Rightarrow> (error + nat option) \<times> event list" where
  "getAccountInfo w address log =
     (case w_accountInformation w (length log) address of
        Inl (Error msg) \<Rightarrow>
          (if js_includes msg ''account does not exist'' then Inr (Some 0) else Inl (Error msg),
           log @ [AccountInformation address])
      | Inr info \<Rightarrow> (Inr info, log @ [AccountInformation address]))"

text \<open>\<^verbatim>\<open>accountInfo?.amount || 0\<close>\<close>

definition amount_or_0 :: "nat option \<Rightarrow> nat" where
  "amount_or_0 info = (case info of None \<Rightarrow> 0 | Some a \<Rightarrow> a)"

text \<open>
  A dispenser acknowledges a request when \<^verbatim>\<open>response.ok || response.status === 200\<close>;
  a request that throws is not acknowledged.
\<close>

definition acknowledged :: "error + http_response \<Rightarrow> bool" where
  "acknowledged r = (case r of Inl e \<Rightarrow> False | Inr response \<Rightarrow> ok response \<or> status response = 200)"

definition fundingSources_bc :: "dispenser list" where
  "fundingSources_bc =
     [\<lparr>d_name = ''Algorand Testnet Dispenser'', d_url = ''https://dispenser.testnet.aws.algodev.network/''\<rparr>,
      \<lparr>d_name = ''Algorand Bank'', d_url = ''https://bank.testnet.algorand.network/''\<rparr>,
      \<lparr>d_name = ''AlgoExplorer Faucet'', d_url = ''https://testnet.algoexplorerapi.io/v1/faucet''\<rparr>]"

text \<open>
  The loop keeps a flag \<^verbatim>\<open>funded\<close>, set when a dispenser acknowledges the
  request; after the loop the function returns the flag.
\<close>

fun fund_loop_bc :: "world \<Rightarrow> nat list \<Rightarrow> dispenser list \<Rightarrow> bool \<Rightarrow> event list \<Rightarrow> (error + bool) \<times> event list" where
  "fund_loop_bc w address [] funded log = (if \<not> funded then (Inr False, log) else (Inr funded, log))"
| "fund_loop_bc w address (d # ds) funded log =
     (case w_fetch w (length log) (d_url d) of
        Inl e \<Rightarrow> fund_loop_bc w address ds funded (log @ [Fetch (d_url d)])
      | Inr response \<Rightarrow>
          if ok response \<or> status response = 200
          then (case getAccountInfo w address (log @ [Fetch (d_url d), Sleep 8000]) of
                  (Inl e, log') \<Rightarrow> fund_loop_bc w address ds True log'
                | (Inr updatedInfo, log') \<Rightarrow>
                    if minimumBalance \<le> amount_or_0 updatedInfo then (Inr True, log')
                    else fund_loop_bc w address ds True log')
          else fund_loop_bc w address ds funded (log @ [Fetch (d_url d)]))"

definition ensureAccountFunded_bc :: "world \<Rightarrow> nat list \<Rightarrow> event list \<Rightarrow> (error + bool) \<times> event list" where
  "ensureAccountFunded_bc w address log =
     (case getAccountInfo w address log of
        (Inl e, log1) \<Rightarrow> (Inr False, log1)
      | (Inr accountInfo, log1) \<Rightarrow>
          (case (if minimumBalance \<le> amount_or_0 accountInfo then (Inr True, log1)
                 else fund_loop_bc w address fundingSources_bc False log1) of
             (Inl e, log') \<Rightarrow> (Inr False, log')
           | (Inr b, log') \<Rightarrow> (Inr b, log')))"

section \<open>The commit (\<^verbatim>\<open>AlgorandBlockchainService.storeHealthDataInTransaction\<close>)\<close>

record HealthDataTransaction =
  txId :: string
  blockNumber :: jsval
  timestamp :: string
  dataHash :: string
  userAddress :: jsval
  verified :: bool
  explorerUrl :: string





text \<open>
  \<^verbatim>\<open>waitForConfirmationWithTimeout\<close>: the call of
  \<^verbatim>\<open>algosdk.waitForConfirmation\<close> and the reading of
  \<^verbatim>\<open>confirmedTxn['confirmed-round']\<close> for the log are both inside the
  \<^verbatim>\<open>try\<close>; the \<^verbatim>\<open>catch\<close> wraps the message of either error.
\<close>

definition waitForConfirmationWithTimeout ::
    "world \<Rightarrow> string \<Rightarrow> nat \<Rightarrow> event list \<Rightarrow> (error + jsval) \<times> event list" where
  "waitForConfirmationWithTimeout w tx timeoutRounds log =
     (case w_waitForConfirmation w (length log) tx timeoutRounds of
        Inr confirmedTxn \<Rightarrow>
          (case get_prop confirmedTxn ''confirmed-round'' of
             Inl (Error msg) \<Rightarrow>
               (Inl (Error (''Transaction confirmation failed: '' @ msg)),
                log @ [WaitForConfirmation tx timeoutRounds])
           | Inr r \<Rightarrow> (Inr confirmedTxn, log @ [WaitForConfirmation tx timeoutRounds]))
      | Inl (Error msg) \<Rightarrow>
          (Inl (Error (''Transaction confirmation failed: '' @ msg)),
           log @ [WaitForConfirmation tx timeoutRounds]))"






section \<open>Verification (\<^verbatim>\<open>AlgorandService.verifyHealthData\<close>)\<close>

subsection \<open>Fetching the transaction\<close>

text \<open>
  Up to three requests, two seconds apart; the error of the third is thrown. (A loop that
  ended without a result would leave \<^verbatim>\<open>txnInfo\<close> undefined.)
\<close>

function fetch_loop :: "world \<Rightarrow> string \<Rightarrow> nat \<Rightarrow> event list \<Rightarrow> (error + jsval) \<times> event list" where
  "fetch_loop w tx attempts log =
     (if attempts < 3
      then (case w_pendingTransactionInformation w (length log) tx of
              Inr txnInfo \<Rightarrow> (Inr txnInfo, log @ [PendingTransactionInformation tx])
            | Inl e \<Rightarrow>
                if attempts + 1 = 3 then (Inl e, log @ [PendingTransactionInformation tx])
                else fetch_loop w tx (attempts + 1)
                       (log @ [PendingTransactionInformation tx, Sleep 2000]))
      else (Inr Undefined, log))"
  by pat_completeness auto
termination
  by (relation "measure (\<lambda>(w, tx, attempts, log). 3 - attempts)") auto

declare fetch_loop.simps [simp del]

subsection \<open>Finding the note\<close>

text \<open>\<^verbatim>\<open>o.k && o.k.note\<close> for \<^verbatim>\<open>k\<close> one of \<^verbatim>\<open>txn\<close>, \<^verbatim>\<open>transaction\<close>.\<close>

definition note_at :: "jsval \<Rightarrow> string \<Rightarrow> error + jsval option" where
  "note_at txnInfo k =
     (case get_prop txnInfo k of
        Inl e \<Rightarrow> Inl e
      | Inr t \<Rightarrow>
          if \<not> truthy t then Inr None
          else (case get_prop t ''note'' of
                  Inl e \<Rightarrow> Inl e
                | Inr n \<Rightarrow> Inr (if truthy n then Some n else None)))"

text \<open>
  \<^verbatim>\<open>searchForNote\<close>: the first truthy property named \<^verbatim>\<open>note\<close>, depth first
  in the order of \<^verbatim>\<open>Object.entries\<close>; the entries of an array are its elements
  under the keys 0, 1, ...; \<open>None\<close> is \<^verbatim>\<open>null\<close>.
\<close>

fun searchForNote :: "jsval \<Rightarrow> jsval option"
  and searchEntries :: "(nat list \<times> jsval) list \<Rightarrow> jsval option"
  and searchElements :: "jsval list \<Rightarrow> jsval option" where
  "searchForNote (Obj kvs) = searchEntries kvs"
| "searchForNote (Arr xs) = searchElements xs"
| "searchForNote v = None"
| "searchEntries [] = None"
| "searchEntries ((k, v) # kvs) =
     (if k = cu ''note'' \<and> truthy v then Some v
      else if is_object v
        then (case searchForNote v of Some r \<Rightarrow> Some r | None \<Rightarrow> searchEntries kvs)
        else searchEntries kvs)"
| "searchElements [] = None"
| "searchElements (v # vs) =
     (if is_object v
      then (case searchForNote v of Some r \<Rightarrow> Some r | None \<Rightarrow> searchElements vs)
      else searchElements vs)"

text \<open>The three ways of the primary path: direct, alternative, deep search.\<close>

definition find_note :: "jsval \<Rightarrow> error + jsval option" where
  "find_note txnInfo =
     (case note_at txnInfo ''txn'' of
        Inl e \<Rightarrow> Inl e
      | Inr (Some n) \<Rightarrow> Inr (Some n)
      | Inr None \<Rightarrow>
          (case note_at txnInfo ''transaction'' of
             Inl e \<Rightarrow> Inl e
           | Inr (Some n) \<Rightarrow> Inr (Some n)
           | Inr None \<Rightarrow> Inr (searchForNote txnInfo)))"

text \<open>
  \<^verbatim>\<open>findNote\<close> of the fallback: \<^verbatim>\<open>obj.note\<close> when truthy, else the first
  note found in a value that is an object.
\<close>

fun findNote :: "jsval \<Rightarrow> jsval option"
  and findValues :: "jsval list \<Rightarrow> jsval option" where
  "findNote (Obj kvs) =
     (case map_of (rev kvs) (cu ''note'') of
        Some n \<Rightarrow> if truthy n then Some n else findValues (map snd kvs)
      | None \<Rightarrow> findValues (map snd kvs))"
| "findNote (Arr xs) = findValues xs"
| "findNote v = None"
| "findValues [] = None"
| "findValues (v # vs) =
     (if truthy v \<and> is_object v
      then (case findNote v of Some r \<Rightarrow> Some r | None \<Rightarrow> findValues vs)
      else findValues vs)"

subsection \<open>\<^verbatim>\<open>fallbackVerification\<close>\<close>

text \<open>
  Three more requests, after 5 seconds and then 3 and 6 seconds apart. In each the note
  is searched and, when found, decoded and searched for the hash; when the decoding
  throws, \<^verbatim>\<open>String(note)\<close> is searched. An exception of an attempt is caught in
  the attempt.
\<close>

definition fallback_attempt :: "world \<Rightarrow> string \<Rightarrow> string \<Rightarrow> event list \<Rightarrow> bool" where
  "fallback_attempt w tx h log =
     (case w_pendingTransactionInformation w (length log) tx of
        Inl e \<Rightarrow> False
      | Inr txnInfo \<Rightarrow>
          (case findNote txnInfo of
             None \<Rightarrow> False
           | Some n \<Rightarrow>
               (case w_decode_base64 w n of
                  Inr noteString \<Rightarrow> js_includes noteString h
                | Inl e \<Rightarrow> js_includes (w_String w n) h)))"

function fallback_loop :: "world \<Rightarrow> string \<Rightarrow> string \<Rightarrow> nat \<Rightarrow> event list \<Rightarrow> bool \<times> event list" where
  "fallback_loop w tx h attempt log =
     (if attempt \<le> 3
      then if fallback_attempt w tx h log then (True, log @ [PendingTransactionInformation tx])
           else fallback_loop w tx h (attempt + 1)
                  (if attempt < 3
                   then log @ [PendingTransactionInformation tx, Sleep (3000 * attempt)]
                   else log @ [PendingTransactionInformation tx])
      else (False, log))"
  by pat_completeness auto
termination
  by (relation "measure (\<lambda>(w, tx, h, attempt, log). 4 - attempt)") auto

declare fallback_loop.simps [simp del]

definition fallbackVerification :: "world \<Rightarrow> string \<Rightarrow> string \<Rightarrow> event list \<Rightarrow> bool \<times> event list" where
  "fallbackVerification w tx h log = fallback_loop w tx h 1 (log @ [Sleep 5000])"

subsection \<open>\<^verbatim>\<open>verifyHealthData\<close>\<close>

text \<open>
  The decoding of the note: base64, and what the \<^verbatim>\<open>catch\<close> does when that throws.
\<close>

definition decode_note :: "world \<Rightarrow> jsval \<Rightarrow> error + string" where
  "decode_note w n =
     (case w_decode_base64 w n of
        Inr noteString \<Rightarrow> Inr noteString
      | Inl e \<Rightarrow> w_decode_alternative w n)"

text \<open>The body of the outer \<^verbatim>\<open>try\<close> block; \<open>Inl\<close> is an exception that leaves it.\<close>

definition verify_body :: "world \<Rightarrow> string \<Rightarrow> string \<Rightarrow> event list \<Rightarrow> (error + bool) \<times> event list" where
  "verify_body w h tx log =
     (case fetch_loop w tx 0 log of
        (Inl e, log1) \<Rightarrow> (Inl e, log1)
      | (Inr txnInfo, log1) \<Rightarrow>
          if \<not> truthy txnInfo
          then (Inl (Error ''Failed to retrieve transaction information after multiple attempts''), log1)
          else (case get_prop txnInfo ''confirmed-round'' of
                  Inl e \<Rightarrow> (Inl e, log1)
                | Inr r \<Rightarrow>
                    if \<not> truthy r then (Inr False, log1)
                    else (case find_note txnInfo of
                            Inl e \<Rightarrow> (Inl e, log1)
                          | Inr None \<Rightarrow>
                              (case fallbackVerification w tx h log1 of
                                 (b, log2) \<Rightarrow> (Inr b, log2))
                          | Inr (Some n) \<Rightarrow>
                              (case decode_note w n of
                                 Inl e \<Rightarrow> (Inr False, log1)
                               | Inr noteString \<Rightarrow> (Inr (verifyNoteString noteString h), log1)))))"

text \<open>\<^verbatim>\<open>verifyHealthData\<close>: the outer \<^verbatim>\<open>catch\<close> returns \<^verbatim>\<open>false\<close>.\<close>

definition verifyHealthData :: "world \<Rightarrow> string \<Rightarrow> string \<Rightarrow> event list \<Rightarrow> (error + bool) \<times> event list" where
  "verifyHealthData w h tx log =
     (case verify_body w h tx log of
        (Inl e, log') \<Rightarrow> (Inr False, log')
      | (Inr b, log') \<Rightarrow> (Inr b, log'))"

subsection \<open>The exported \<^verbatim>\<open>verifyHealthDataOnBlockchain\<close>\<close>

text \<open>
  \<^verbatim>\<open>if (txId) { return await algorandService.verifyHealthData(dataHash, txId); }
  return userAddress && userAddress.length === 58;\<close>
  The transaction id is optional (\<open>None\<close> is \<^verbatim>\<open>undefined\<close>); the address is a
  string, or \<open>None\<close> for \<^verbatim>\<open>undefined\<close>. The value of \<^verbatim>\<open>a && b\<close> is
  \<^verbatim>\<open>a\<close> when \<^verbatim>\<open>a\<close> is falsy.
\<close>

definition address_check :: "string option \<Rightarrow> jsval" where
  "address_check address =
     (case address of
        None \<Rightarrow> Undefined
      | Some a \<Rightarrow> if a = [] then Str [] else Bool (length a = 58))"

definition verifyHealthDataOnBlockchain ::
    "world \<Rightarrow> string \<Rightarrow> string option \<Rightarrow> string option \<Rightarrow> event list \<Rightarrow> (error + jsval) \<times> event list" where
  "verifyHealthDataOnBlockchain w h address tx log =
     (case tx of
        None \<Rightarrow> (Inr (address_check address), log)
      | Some t \<Rightarrow>
          if t = [] then (Inr (address_check address), log)
          else (case verifyHealthData w h t log of
                  (Inl e, log') \<Rightarrow> (Inl e, log')
                | (Inr b, log') \<Rightarrow> (Inr (Bool b), log')))"

text \<open>
  \<^verbatim>\<open>AlgorandBlockchainService.verifyHealthDataFromTransaction\<close> and the
  \<^verbatim>\<open>verifyHealthDataOnBlockchain\<close> of \<^verbatim>\<open>lib/algorand.ts\<close>, which calls it
  inside a \<^verbatim>\<open>try\<close> block of its own.
\<close>

definition note_text_ok :: "string \<Rightarrow> string \<Rightarrow> bool" where
  "note_text_ok noteString h =
     (case JSON_parse noteString of
        None \<Rightarrow> js_includes noteString (''HEALTH_DATA:'' @ h)
      | Some noteData \<Rightarrow>
          (case get_prop noteData ''type'' of
             Inl e \<Rightarrow> js_includes noteString (''HEALTH_DATA:'' @ h)
           | Inr ty \<Rightarrow>
               (case get_prop noteData ''hash'' of
                  Inl e \<Rightarrow> js_includes noteString (''HEALTH_DATA:'' @ h)
                | Inr hv \<Rightarrow> ty = Str (cu ''HEALTH_DATA'') \<and> hv = Str (cu h))))"

definition transaction_ok :: "world \<Rightarrow> string \<Rightarrow> jsval \<Rightarrow> error + bool" where
  "transaction_ok w h txnInfo =
     (case get_prop txnInfo ''txn'' of
        Inl e \<Rightarrow> Inl e
      | Inr t \<Rightarrow>
          if \<not> truthy t then Inr False
          else (case get_prop txnInfo ''confirmed-round'' of
                  Inl e \<Rightarrow> Inl e
                | Inr r \<Rightarrow>
                    if \<not> truthy r then Inr False
                    else (case get_prop t ''note'' of
                            Inl e \<Rightarrow> Inl e
                          | Inr n \<Rightarrow>
                              if \<not> truthy n then Inr False
                              else (case w_decode_base64 w n of
                                      Inl e \<Rightarrow> Inr False
                                    | Inr noteString \<Rightarrow> Inr (note_text_ok noteString h)))))"

definition verifyHealthDataFromTransaction :: "world \<Rightarrow> string \<Rightarrow> string \<Rightarrow> event list \<Rightarrow> bool \<times> event list" where
  "verifyHealthDataFromTransaction w h tx log =
     (case w_pendingTransactionInformation w (length log) tx of
        Inl e \<Rightarrow> (False, log @ [PendingTransactionInformation tx])
      | Inr txnInfo \<Rightarrow>
          (case transaction_ok w h txnInfo of
             Inl e \<Rightarrow> (False, log @ [PendingTransactionInformation tx])
           | Inr b \<Rightarrow> (b, log @ [PendingTransactionInformation tx])))"

definition verifyHealthDataOnBlockchain_lib ::
    "world \<Rightarrow> string \<Rightarrow> string option \<Rightarrow> string option \<Rightarrow> event list \<Rightarrow> (error + jsval) \<times> event list" where
  "verifyHealthDataOnBlockchain_lib w h address tx log =
     (case tx of
        None \<Rightarrow> (Inr (address_check address), log)
      | Some t \<Rightarrow>
          if t = [] then (Inr (address_check address), log)
          else (case verifyHealthDataFromTransaction w h t log of
                  (b, log') \<Rightarrow> (Inr (Bool b), log')))"

section \<open>Concrete accounts and networks\<close>

text \<open>
  The address of the all-zero public key, with its checksum, and the address of
  \<^verbatim>\<open>createMockAccount\<close>, whose last six characters are not that checksum. The
  decoder \<open>decodes_zero\<close> accepts the first address only.
\<close>

definition zeroAddress :: string where
  "zeroAddress = ''AAAAAAAAAAAAAAAAAAAAAAAAAAAAAAAAAAAAAAAAAAAAAAAAAAAAY5HFKQ''"

definition decodes_zero :: "nat list \<Rightarrow> bool" where
  "decodes_zero a = (a = cu zeroAddress)"


definition mock_candidate :: jsval where
  "mock_candidate = Obj [(cu ''addr'', Str (cu mockAddr)), (cu ''sk'', Bytes (replicate 64 0))]"

text \<open>An environment in which the SDK cannot generate keys and rejects every mnemonic.\<close>

definition failing_env :: gen_env where
  "failing_env =
     \<lparr>sdk_generateAccount = Inl (Error ''crypto.getRandomValues must be defined''),
      sdk_mnemonicToSecretKey = (\<lambda>m. Inl (Error ''failed to decode mnemonic'')),
      sdk_decodeAddress = decodes_zero,
      secureMnemonic = (\<lambda>n. Inr ''abandon ability able about above absent absorb abstract absurd abuse access accident''),
      fallback_seed = ''1719230000000-0.123-ios'',
      mock_now = (\<lambda>i. 1719230000000)\<rparr>"

text \<open>
  A testnet on which every account holds nothing, every faucet answers 200, every
  transaction is accepted and confirmed in round 42, and the node does not know any
  pending transaction.
\<close>

definition poor_world :: world where
  "poor_world =
     \<lparr>w_accountInformation = (\<lambda>n a. Inr (Some 0)),
      w_fetch = (\<lambda>n u. Inr \<lparr>ok = True, status = 200\<rparr>),
      w_getTransactionParams = (\<lambda>n. Inr (Obj [])),
      w_signTxn = (\<lambda>p k. Inr [1, 2, 3]),
      w_sendRawTransaction = (\<lambda>n s. Inr ''TX1''),
      w_waitForConfirmation = (\<lambda>n t r. Inr (Obj [(cu ''confirmed-round'', Num 42 0)])),
      w_pendingTransactionInformation = (\<lambda>n t. Inl (Error ''network request failed'')),
      w_decode_base64 = (\<lambda>v. Inl (Error ''not base64'')),
      w_decode_alternative = (\<lambda>v. Inl (Error ''not text'')),
      w_String = (\<lambda>v. []),
      w_now = (\<lambda>n. 1719230000000),
      w_toISOString = (\<lambda>n. ''2024-06-24T11:53:20.000Z''),
      w_decodeAddress = decodes_zero,
      w_network = ''testnet''\<rparr>"

text \<open>The same with 150000 microAlgos on every account.\<close>

definition rich_world :: world where
  "rich_world = poor_world\<lparr>w_accountInformation := (\<lambda>n a. Inr (Some 150000))\<rparr>"


text \<open>A node that answers every request for a transaction with \<open>txnInfo\<close>.\<close>

definition answering_world :: "jsval \<Rightarrow> world" where
  "answering_world txnInfo = poor_world\<lparr>w_pendingTransactionInformation := (\<lambda>n t. Inr txnInfo)\<rparr>"

text \<open>
  Answers of the node: a transaction that is not confirmed, a confirmed one whose note
  cannot be decoded, a confirmed one without a note.
\<close>

definition unconfirmed_info :: jsval where
  "unconfirmed_info = Obj [(cu ''txn'', Obj [])]"

definition undecodable_info :: jsval where
  "undecodable_info = Obj [(cu ''confirmed-round'', Num 42 0), (cu ''txn'', Obj [(cu ''note'', Str (cu ''@@@''))])]"

definition bare_info :: jsval where
  "bare_info = Obj [(cu ''confirmed-round'', Num 42 0), (cu ''txn'', Obj [])]"

text \<open>Two data hashes: the SHA-256 digests of \<^verbatim>\<open>abc\<close> and of the empty string.\<close>

definition digest_abc :: string where
  "digest_abc = ''ba7816bf8f01cfea414140de5dae2223b00361a396177a9cb410ff61f20015ad''"

definition digest_empty :: string where
  "digest_empty = ''e3b0c44298fc1c149afbf4c8996fb92427ae41e4649b934ca495991b7852b855''"

section \<open>Strings: basic facts\<close>

lemma js_includes_sublist: "js_includes s t = sublist t s"
  by (induction s) (auto simp: sublist_Cons_right)

lemma js_includes_append_right: "js_includes (a @ t @ b) t"
  by (simp add: js_includes_sublist)

lemma js_includes_trans: "js_includes s t \<Longrightarrow> js_includes t u \<Longrightarrow> js_includes s u"
  unfolding js_includes_sublist by (rule sublist_order.order_trans)

lemma js_split_parts:
  "js_split sep s = p # ps \<Longrightarrow> prefix p s \<and> (\<forall>q \<in> set ps. sublist q s)"
proof (induction sep s arbitrary: p ps rule: js_split.induct)
  case (1 sep)
  then show ?case by simp
next
  case (2 sep c cs)
  show ?case
  proof (cases "sep \<noteq> [] \<and> prefix sep (c # cs)")
    case True
    with "2.prems" have p: "p = []" and ps: "ps = js_split sep (drop (length sep) (c # cs))"
      by auto
    have "sublist q (c # cs)" if "q \<in> set ps" for q
    proof -
      from that ps have "js_split sep (drop (length sep) (c # cs)) \<noteq> []" by auto
      then obtain p' ps' where e: "js_split sep (drop (length sep) (c # cs)) = p' # ps'"
        by (cases "js_split sep (drop (length sep) (c # cs))") auto
      from "2.IH"(1)[OF True e] have "prefix p' (drop (length sep) (c # cs))"
        and "\<forall>q \<in> set ps'. sublist q (drop (length sep) (c # cs))" by auto
      with that ps e have "sublist q (drop (length sep) (c # cs))" by auto
      then show ?thesis
        using sublist_drop sublist_order.order_trans by blast
    qed
    with p show ?thesis by simp
  next
    case False
    show ?thesis
    proof (cases "js_split sep cs")
      case Nil
      with False "2.prems" show ?thesis by auto
    next
      case (Cons p' ps')
      with False "2.prems" have p: "p = c # p'" and ps: "ps = ps'" by auto
      from "2.IH"(2)[OF False Cons] have "prefix p' cs" and "\<forall>q \<in> set ps'. sublist q cs" by auto
      then show ?thesis using p ps
        by (auto simp: sublist_Cons_right)
    qed
  qed
qed

lemma js_split_sublist: "p \<in> set (js_split sep s) \<Longrightarrow> sublist p s"
proof -
  assume a: "p \<in> set (js_split sep s)"
  then obtain q qs where e: "js_split sep s = q # qs" by (cases "js_split sep s") auto
  from js_split_parts[OF e] a e show ?thesis by auto
qed

section \<open>Accounts: validation and generation\<close>

lemma isValidAccount_iff:
  "isValidAccount dec account \<longleftrightarrow>
     (\<exists>a k. get_prop account ''addr'' = Inr (Str a) \<and> length a = 58 \<and> dec a
            \<and> get_prop account ''sk'' = Inr (Bytes k) \<and> length k = 64)"
proof (cases account)
  case (Obj kvs)
  show ?thesis
    unfolding Obj isValidAccount_def
    by (auto simp: is_string_def is_Uint8Array_def units_def split: option.splits jsval.splits)
qed (auto simp: isValidAccount_def)

lemma validateAccount_iff:
  "validateAccount dec account \<longleftrightarrow>
     (\<exists>a k. get_prop account ''addr'' = Inr (Str a) \<and> length a = 58
            \<and> (prefix (cu ''AAAAAAA'') a \<or> dec a)
            \<and> get_prop account ''sk'' = Inr (Bytes k) \<and> length k = 64)"
proof (cases account)
  case (Obj kvs)
  show ?thesis
    unfolding Obj validateAccount_def
    by (auto simp: is_object_def is_string_def is_Uint8Array_def units_def
             split: option.splits jsval.splits)
qed (auto simp: validateAccount_def is_object_def)

lemma mock_candidate_props:
  "get_prop mock_candidate ''addr'' = Inr (Str (cu mockAddr))"
  "get_prop mock_candidate ''sk'' = Inr (Bytes (replicate 64 0))"
  by (simp_all add: mock_candidate_def cu_def)

lemma mockAddr_facts:
  "length (cu mockAddr) = 58"
  "prefix (cu ''AAAAAAA'') (cu mockAddr)"
  "\<not> decodes_zero (cu mockAddr)"
  by (simp_all add: cu_def mockAddr_def zeroAddress_def decodes_zero_def)




text \<open>
  C5 on the code. \<^verbatim>\<open>validateAccount\<close> does not call \<^verbatim>\<open>decodeAddress\<close>
  for an address that starts with \<^verbatim>\<open>AAAAAAA\<close>: a candidate whose address has
  58 characters and that prefix and whose key is a \<^verbatim>\<open>Uint8Array\<close> of 64 bytes is
  accepted although the address does not decode under the checksum scheme.
  \<^verbatim>\<open>isValidAccount\<close> rejects the same candidate.
\<close>

theorem validateAccount_skips_checksum:
  assumes "get_prop account ''addr'' = Inr (Str a)"
    and "length a = 58"
    and "prefix (cu ''AAAAAAA'') a"
    and "\<not> dec a"
    and "get_prop account ''sk'' = Inr (Bytes k)"
    and "length k = 64"
  shows "validateAccount dec account \<and> \<not> isValidAccount dec account"
proof
  show "validateAccount dec account"
    unfolding validateAccount_iff using assms by blast
  show "\<not> isValidAccount dec account"
    unfolding isValidAccount_iff using assms(1,4) by auto
qed

theorem validateAccount_skips_checksum_witness:
  "get_prop mock_candidate ''addr'' = Inr (Str (cu mockAddr))
   \<and> length (cu mockAddr) = 58
   \<and> prefix (cu ''AAAAAAA'') (cu mockAddr)
   \<and> \<not> decodes_zero (cu mockAddr)
   \<and> get_prop mock_candidate ''sk'' = Inr (Bytes (replicate 64 0))
   \<and> validateAccount decodes_zero mock_candidate
   \<and> \<not> isValidAccount decodes_zero mock_candidate"
proof -
  have l: "length (replicate 64 (0 :: nat)) = 64" by simp
  note v = validateAccount_skips_checksum[where dec=decodes_zero,
      OF mock_candidate_props(1) mockAddr_facts mock_candidate_props(2) l]
  show ?thesis
    by (intro conjI mock_candidate_props mockAddr_facts conjunct1[OF v] conjunct2[OF v])
qed

lemma generateAccountFallback_returns: "\<exists>a. generateAccountFallback env = Inr a"
  by (simp add: generateAccountFallback_def Let_def split: sum.splits)

text \<open>\<^verbatim>\<open>generateAccount\<close> never throws: its last \<^verbatim>\<open>throw\<close> cannot be reached.\<close>

lemma generateAccount_returns: "\<exists>a. generateAccount env = Inr a"
  using generateAccountFallback_returns[of env]
  by (auto simp: generateAccount_def split: sum.splits)

text \<open>
  The other implementation throws when both of its methods fail.
\<close>

lemma generateAccount_bc_throws:
  assumes "sdk_generateAccount env = Inl e1"
    and "sdk_mnemonicToSecretKey env m = Inl (Error msg)"
  shows "generateAccount_bc env (Inr m)
           = Inl (Error (''All account generation methods failed: Error: '' @ msg))"
  using assms by (simp add: generateAccount_bc_def generateAccountFromMnemonic_def)

text \<open>
  C4 on the code. When the direct generation, the mnemonic and the manual generation fail,
  and the fallback's mnemonic is rejected by the SDK or gives an account that fails the
  validation, \<^verbatim>\<open>generateAccount\<close> returns the mock account; it does not throw.
\<close>

theorem generateAccount_mock:
  assumes "generateDirect env = Inl e1"
    and "generateFromMnemonic env = Inl e2"
    and "generateAccountManually env = Inl e3"
    and "sdk_mnemonicToSecretKey env (fallback_mnemonic (fallback_seed env)) = Inl e4
         \<or> (\<exists>account. sdk_mnemonicToSecretKey env (fallback_mnemonic (fallback_seed env)) = Inr account
               \<and> \<not> validateAccount (sdk_decodeAddress env) account)"
  shows "generateAccount env = Inr (createMockAccount env)"
  using assms
  by (auto simp: generateAccount_def generateAccountFallback_def validated_def Let_def
           split: sum.splits)

theorem generateAccount_mock_witness:
  "generateDirect failing_env = Inl (Error ''crypto.getRandomValues must be defined'')
   \<and> generateFromMnemonic failing_env = Inl (Error ''failed to decode mnemonic'')
   \<and> generateAccountManually failing_env = Inl (Error ''failed to decode mnemonic'')
   \<and> sdk_mnemonicToSecretKey failing_env (fallback_mnemonic (fallback_seed failing_env))
       = Inl (Error ''failed to decode mnemonic'')
   \<and> generateAccount failing_env = Inr (createMockAccount failing_env)
   \<and> addr (createMockAccount failing_env) = Str (cu mockAddr)"
proof -
  have 1: "generateDirect failing_env = Inl (Error ''crypto.getRandomValues must be defined'')"
    by (simp add: generateDirect_def failing_env_def)
  have 2: "generateFromMnemonic failing_env = Inl (Error ''failed to decode mnemonic'')"
    by (simp add: generateFromMnemonic_def failing_env_def)
  have 3: "generateAccountManually failing_env = Inl (Error ''failed to decode mnemonic'')"
    by (simp add: generateAccountManually_def failing_env_def)
  have 4: "sdk_mnemonicToSecretKey failing_env (fallback_mnemonic (fallback_seed failing_env))
             = Inl (Error ''failed to decode mnemonic'')"
    by (simp add: failing_env_def)
  have 5: "addr (createMockAccount failing_env) = Str (cu mockAddr)"
    by (simp add: createMockAccount_def)
  show ?thesis
    by (intro conjI 1 2 3 4 5 generateAccount_mock[OF 1 2 3 disjI1[OF 4]])
qed

section \<open>Funding\<close>

lemma requested_append: "requested (a @ b) = requested a @ requested b"
  by (induction a rule: requested.induct) auto

lemma getAccountBalance_log:
  "snd (getAccountBalance w address log) = log @ [AccountInformation address]"
  by (auto simp: getAccountBalance_def split: sum.splits option.splits error.splits)

lemma getAccountBalance_low:
  assumes "\<forall>n a b. w_accountInformation w n a = Inr (Some b) \<longrightarrow> b < minimumBalance"
  shows "fst (getAccountBalance w address log) < minimumBalance"
  using assms[rule_format, of "length log" address]
  by (auto simp: getAccountBalance_def minimumBalance_def
           split: sum.splits option.splits error.splits)

lemma fund_loop_exhausted:
  assumes "\<forall>n a b. w_accountInformation w n a = Inr (Some b) \<longrightarrow> b < minimumBalance"
  shows "\<exists>log'. fund_loop w address ds log = (Inr False, log')
               \<and> requested log' = requested log @ map d_url ds"
proof (induction ds arbitrary: log)
  case Nil
  then show ?case by simp
next
  case (Cons d ds)
  show ?case
  proof (cases "w_fetch w (length log) (d_url d)")
    case (Inl e)
    with Cons[of "log @ [Fetch (d_url d)]"] show ?thesis
      by (auto simp: requested_append)
  next
    case (Inr response)
    show ?thesis
    proof (cases "ok response")
      case False
      with Inr Cons[of "log @ [Fetch (d_url d)]"] show ?thesis
        by (auto simp: requested_append)
    next
      case True
      obtain nb l where g: "getAccountBalance w address (log @ [Fetch (d_url d), Sleep 5000]) = (nb, l)"
        by (cases "getAccountBalance w address (log @ [Fetch (d_url d), Sleep 5000])")
      from getAccountBalance_low[OF assms, where address=address
          and log="log @ [Fetch (d_url d), Sleep 5000]"] g
      have low: "nb < minimumBalance" by simp
      from getAccountBalance_log[where w=w and address=address
          and log="log @ [Fetch (d_url d), Sleep 5000]"] g
      have l: "l = log @ [Fetch (d_url d), Sleep 5000, AccountInformation address]" by simp
      from Cons[of l] obtain log' where
        "fund_loop w address ds l = (Inr False, log')" "requested log' = requested l @ map d_url ds"
        by blast
      then show ?thesis using Inr True g low l
        by (auto simp: requested_append)
    qed
  qed
qed

lemma ensureAccountFunded_short:
  assumes "w_accountInformation w (length log) address = Inr (Some b)" "minimumBalance \<le> b"
  shows "ensureAccountFunded w address log = (Inr True, log @ [AccountInformation address])"
  using assms by (simp add: ensureAccountFunded_def getAccountBalance_def)

lemma ensureAccountFunded_bc_short:
  assumes "w_accountInformation w (length log) address = Inr (Some b)" "minimumBalance \<le> b"
  shows "ensureAccountFunded_bc w address log = (Inr True, log @ [AccountInformation address])"
  using assms by (simp add: ensureAccountFunded_bc_def getAccountInfo_def amount_or_0_def)

lemma ensureAccountFunded_exhausted:
  assumes "\<forall>n a b. w_accountInformation w n a = Inr (Some b) \<longrightarrow> b < minimumBalance"
  shows "\<exists>log'. ensureAccountFunded w address log = (Inr False, log')
               \<and> requested log' = requested log @ map d_url fundingSources"
proof -
  obtain cb l where g: "getAccountBalance w address log = (cb, l)"
    by (cases "getAccountBalance w address log")
  from getAccountBalance_low[OF assms, where address=address and log=log] g
  have low: "cb < minimumBalance" by simp
  from getAccountBalance_log[where w=w and address=address and log=log] g
  have l: "l = log @ [AccountInformation address]" by simp
  from fund_loop_exhausted[OF assms, where address=address and ds=fundingSources and log=l]
  obtain log' where
    "fund_loop w address fundingSources l = (Inr False, log')"
    "requested log' = requested l @ map d_url fundingSources" by blast
  then show ?thesis using g low l
    by (auto simp: ensureAccountFunded_def requested_append)
qed

lemma ensureAccountFunded_returns: "\<exists>b. fst (ensureAccountFunded w address log) = Inr b"
  by (auto simp: ensureAccountFunded_def split: sum.splits prod.splits)

lemma ensureAccountFunded_bc_returns: "\<exists>b. fst (ensureAccountFunded_bc w address log) = Inr b"
  by (auto simp: ensureAccountFunded_bc_def split: sum.splits prod.splits)

lemma getAccountInfo_log:
  "snd (getAccountInfo w address log) = log @ [AccountInformation address]"
  by (auto simp: getAccountInfo_def split: sum.splits option.splits error.splits)

lemma getAccountInfo_low:
  assumes "\<forall>n a b. w_accountInformation w n a = Inr (Some b) \<longrightarrow> b < minimumBalance"
    and "getAccountInfo w address log = (Inr info, l)"
  shows "amount_or_0 info < minimumBalance"
  using assms(1)[rule_format, of "length log" address] assms(2)
  by (auto simp: getAccountInfo_def amount_or_0_def minimumBalance_def
           split: sum.splits option.splits error.splits if_splits)

lemma fund_loop_bc_exhausted:
  assumes low: "\<forall>n a b. w_accountInformation w n a = Inr (Some b) \<longrightarrow> b < minimumBalance"
    and resp: "\<forall>n u. w_fetch w n u = resp u"
  shows "\<exists>log'. fund_loop_bc w address ds funded log
                  = (Inr (funded \<or> (\<exists>d \<in> set ds. acknowledged (resp (d_url d)))), log')
               \<and> requested log' = requested log @ map d_url ds"
proof (induction ds arbitrary: log funded)
  case Nil
  then show ?case by simp
next
  case (Cons d ds)
  show ?case
  proof (cases "acknowledged (resp (d_url d))")
    case False
    from Cons[of funded "log @ [Fetch (d_url d)]"] obtain log' where
      "fund_loop_bc w address ds funded (log @ [Fetch (d_url d)])
         = (Inr (funded \<or> (\<exists>d \<in> set ds. acknowledged (resp (d_url d)))), log')"
      "requested log' = requested (log @ [Fetch (d_url d)]) @ map d_url ds" by blast
    then show ?thesis using False resp[rule_format, of "length log" "d_url d"]
      by (auto simp: acknowledged_def requested_append split: sum.splits)
  next
    case True
    then obtain response where r: "resp (d_url d) = Inr response" "ok response \<or> status response = 200"
      by (auto simp: acknowledged_def split: sum.splits)
    obtain ri l where g: "getAccountInfo w address (log @ [Fetch (d_url d), Sleep 8000]) = (ri, l)"
      by (cases "getAccountInfo w address (log @ [Fetch (d_url d), Sleep 8000])")
    from getAccountInfo_log[where w=w and address=address
        and log="log @ [Fetch (d_url d), Sleep 8000]"] g
    have l: "l = log @ [Fetch (d_url d), Sleep 8000, AccountInformation address]" by simp
    from Cons[of True l] obtain log' where IH:
      "fund_loop_bc w address ds True l = (Inr True, log')"
      "requested log' = requested l @ map d_url ds" by auto
    show ?thesis
    proof (cases ri)
      case (Inl e)
      with IH r g l resp[rule_format, of "length log" "d_url d"] True show ?thesis
        by (auto simp: requested_append)
    next
      case (Inr info)
      with getAccountInfo_low[OF low] g have "amount_or_0 info < minimumBalance" by blast
      with Inr IH r g l resp[rule_format, of "length log" "d_url d"] True show ?thesis
        by (auto simp: requested_append)
    qed
  qed
qed

lemma ensureAccountFunded_bc_exhausted:
  assumes low: "\<forall>n a b. w_accountInformation w n a = Inr (Some b) \<longrightarrow> b < minimumBalance"
    and resp: "\<forall>n u. w_fetch w n u = resp u"
    and first: "w_accountInformation w (length log) address = Inr info"
  shows "\<exists>log'. ensureAccountFunded_bc w address log
                  = (Inr (\<exists>d \<in> set fundingSources_bc. acknowledged (resp (d_url d))), log')
               \<and> requested log' = requested log @ map d_url fundingSources_bc"
proof -
  have g: "getAccountInfo w address log = (Inr info, log @ [AccountInformation address])"
    using first by (simp add: getAccountInfo_def)
  from getAccountInfo_low[OF low g] have lo: "amount_or_0 info < minimumBalance" .
  from fund_loop_bc_exhausted[OF low resp, where address=address and ds=fundingSources_bc
      and funded=False and log="log @ [AccountInformation address]"]
  obtain log' where
    "fund_loop_bc w address fundingSources_bc False (log @ [AccountInformation address])
       = (Inr (\<exists>d \<in> set fundingSources_bc. acknowledged (resp (d_url d))), log')"
    "requested log' = requested (log @ [AccountInformation address]) @ map d_url fundingSources_bc"
    by auto
  then show ?thesis using g lo
    by (auto simp: ensureAccountFunded_bc_def requested_append)
qed

lemma poor_world_low:
  "\<forall>n a b. w_accountInformation poor_world n a = Inr (Some b) \<longrightarrow> b < minimumBalance"
  by (simp add: poor_world_def minimumBalance_def)

lemma poor_world_fetch:
  "\<forall>n u. w_fetch poor_world n u = Inr \<lparr>ok = True, status = 200\<rparr>"
  by (simp add: poor_world_def)

lemma poor_world_funded:
  "ensureAccountFunded poor_world (cu zeroAddress) [] =
     (Inr False,
      [AccountInformation (cu zeroAddress),
       Fetch ''https://dispenser.testnet.aws.algodev.network/'', Sleep 5000,
       AccountInformation (cu zeroAddress),
       Fetch ''https://bank.testnet.algorand.network/'', Sleep 5000,
       AccountInformation (cu zeroAddress)])"
  by (simp add: ensureAccountFunded_def getAccountBalance_def poor_world_def minimumBalance_def
        fundingSources_def)

lemma poor_world_funded_bc:
  "ensureAccountFunded_bc poor_world (cu zeroAddress) [] =
     (Inr True,
      [AccountInformation (cu zeroAddress),
       Fetch ''https://dispenser.testnet.aws.algodev.network/'', Sleep 8000,
       AccountInformation (cu zeroAddress),
       Fetch ''https://bank.testnet.algorand.network/'', Sleep 8000,
       AccountInformation (cu zeroAddress),
       Fetch ''https://testnet.algoexplorerapi.io/v1/faucet'', Sleep 8000,
       AccountInformation (cu zeroAddress)])"
  by (simp add: ensureAccountFunded_bc_def getAccountInfo_def poor_world_def minimumBalance_def
        fundingSources_bc_def amount_or_0_def)

text \<open>
  With 150000 microAlgos on the account both implementations return true after the one
  balance request.
\<close>

lemma rich_world_funded:
  "ensureAccountFunded rich_world (cu zeroAddress) [] = (Inr True, [AccountInformation (cu zeroAddress)])"
  "ensureAccountFunded_bc rich_world (cu zeroAddress) [] = (Inr True, [AccountInformation (cu zeroAddress)])"
  by (simp_all add: ensureAccountFunded_def ensureAccountFunded_bc_def getAccountBalance_def
      getAccountInfo_def amount_or_0_def rich_world_def poor_world_def minimumBalance_def)

text \<open>
  When the first balance request throws an error other than ``account does not exist'',
  \<^verbatim>\<open>getAccountInfo\<close> throws it again and the outer \<^verbatim>\<open>catch\<close> of
  \<^verbatim>\<open>AlgorandBlockchainService.ensureAccountFunded\<close> returns false; no faucet is
  requested.
\<close>

lemma ensureAccountFunded_bc_first_throws:
  assumes "w_accountInformation w (length log) address = Inl (Error msg)"
    and "\<not> js_includes msg ''account does not exist''"
  shows "ensureAccountFunded_bc w address log = (Inr False, log @ [AccountInformation address])"
  using assms by (simp add: ensureAccountFunded_bc_def getAccountInfo_def)

text \<open>
  C7 on the code. Take a network on which no balance ever read reaches 100000, the
  first balance request of the call does not throw, the faucets answer each URL the same
  way every time, and at least one of them acknowledges the request. Then
  \<^verbatim>\<open>AlgorandBlockchainService.ensureAccountFunded\<close> requests every dispenser, in
  order, and returns true, its flag \<^verbatim>\<open>funded\<close>, with the threshold still not
  met; \<^verbatim>\<open>AlgorandService.ensureAccountFunded\<close> requests every dispenser as well and
  returns false.
\<close>

theorem funded_flag_returned:
  assumes low: "\<forall>n a b. w_accountInformation w n a = Inr (Some b) \<longrightarrow> b < minimumBalance"
    and resp: "\<forall>n u. w_fetch w n u = resp u"
    and first: "w_accountInformation w (length log) address = Inr info"
    and ack: "\<exists>d \<in> set fundingSources_bc. acknowledged (resp (d_url d))"
  shows "(\<exists>log'. ensureAccountFunded_bc w address log = (Inr True, log')
                \<and> requested log' = requested log @ map d_url fundingSources_bc)
       \<and> (\<exists>log'. ensureAccountFunded w address log = (Inr False, log')
                \<and> requested log' = requested log @ map d_url fundingSources)"
proof
  from ensureAccountFunded_bc_exhausted[OF low resp first] ack
  show "\<exists>log'. ensureAccountFunded_bc w address log = (Inr True, log')
                \<and> requested log' = requested log @ map d_url fundingSources_bc"
    by simp
  from low
  show "\<exists>log'. ensureAccountFunded w address log = (Inr False, log')
                \<and> requested log' = requested log @ map d_url fundingSources"
    by (rule ensureAccountFunded_exhausted)
qed

theorem funded_flag_returned_witness:
  "w_accountInformation poor_world = (\<lambda>n a. Inr (Some 0))
   \<and> w_fetch poor_world = (\<lambda>n u. Inr \<lparr>ok = True, status = 200\<rparr>)
   \<and> ensureAccountFunded_bc poor_world (cu zeroAddress) [] =
     (Inr True,
      [AccountInformation (cu zeroAddress),
       Fetch ''https://dispenser.testnet.aws.algodev.network/'', Sleep 8000,
       AccountInformation (cu zeroAddress),
       Fetch ''https://bank.testnet.algorand.network/'', Sleep 8000,
       AccountInformation (cu zeroAddress),
       Fetch ''https://testnet.algoexplorerapi.io/v1/faucet'', Sleep 8000,
       AccountInformation (cu zeroAddress)])
   \<and> requested (snd (ensureAccountFunded_bc poor_world (cu zeroAddress) [])) = map d_url fundingSources_bc
   \<and> ensureAccountFunded poor_world (cu zeroAddress) [] =
     (Inr False,
      [AccountInformation (cu zeroAddress),
       Fetch ''https://dispenser.testnet.aws.algodev.network/'', Sleep 5000,
       AccountInformation (cu zeroAddress),
       Fetch ''https://bank.testnet.algorand.network/'', Sleep 5000,
       AccountInformation (cu zeroAddress)])
   \<and> requested (snd (ensureAccountFunded poor_world (cu zeroAddress) [])) = map d_url fundingSources"
proof -
  have w: "w_accountInformation poor_world = (\<lambda>n a. Inr (Some 0))"
    "w_fetch poor_world = (\<lambda>n u. Inr \<lparr>ok = True, status = 200\<rparr>)"
    by (simp_all add: poor_world_def)
  have first: "w_accountInformation poor_world (length ([] :: event list)) (cu zeroAddress) = Inr (Some 0)"
    by (simp add: poor_world_def)
  have ack: "\<exists>d \<in> set fundingSources_bc. acknowledged (Inr \<lparr>ok = True, status = 200\<rparr>)"
    by (auto simp: fundingSources_bc_def acknowledged_def)
  note t = funded_flag_returned[OF poor_world_low poor_world_fetch first ack]
  from conjunct1[OF t]
  have 1: "requested (snd (ensureAccountFunded_bc poor_world (cu zeroAddress) [])) = map d_url fundingSources_bc"
    by auto
  from conjunct2[OF t]
  have 2: "requested (snd (ensureAccountFunded poor_world (cu zeroAddress) [])) = map d_url fundingSources"
    by auto
  show ?thesis
    by (intro conjI w poor_world_funded_bc 1 poor_world_funded 2)
qed

section \<open>The commit\<close>










text \<open>
  An answer of \<^verbatim>\<open>waitForConfirmation\<close> that is \<^verbatim>\<open>null\<close> or
  \<^verbatim>\<open>undefined\<close> fails inside \<^verbatim>\<open>waitForConfirmationWithTimeout\<close>, with
  the wrapped message.
\<close>

lemma waitForConfirmation_no_answer:
  assumes "w_waitForConfirmation w (length log) tx r = Inr c" and "c = Null \<or> c = Undefined"
  shows "waitForConfirmationWithTimeout w tx r log
         = (Inl (Error ''Transaction confirmation failed: TypeError''), log @ [WaitForConfirmation tx r])"
  using assms by (auto simp: waitForConfirmationWithTimeout_def)




section \<open>Verification\<close>

lemma verifyHealthData_returns: "\<exists>b. fst (verifyHealthData w h tx log) = Inr b"
  by (auto simp: verifyHealthData_def split: sum.splits prod.splits)

lemma fetch_loop_exhausted:
  assumes "\<forall>n. \<exists>e. w_pendingTransactionInformation w n tx = Inl e"
  shows "\<exists>e l. fetch_loop w tx 0 log = (Inl e, l)"
proof -
  from assms obtain e1 where 1: "w_pendingTransactionInformation w (length log) tx = Inl e1" by blast
  from assms obtain e2 where 2: "w_pendingTransactionInformation w (length (log @ [PendingTransactionInformation tx, Sleep 2000])) tx = Inl e2" by blast
  from assms obtain e3 where 3: "w_pendingTransactionInformation w (length (log @ [PendingTransactionInformation tx, Sleep 2000, PendingTransactionInformation tx, Sleep 2000])) tx = Inl e3" by blast
  have c: "fetch_loop w tx (Suc (Suc 0)) (log @ [PendingTransactionInformation tx, Sleep 2000, PendingTransactionInformation tx, Sleep 2000])
         = (Inl e3, log @ [PendingTransactionInformation tx, Sleep 2000, PendingTransactionInformation tx, Sleep 2000, PendingTransactionInformation tx])"
    using 3 by (subst fetch_loop.simps) simp
  have b: "fetch_loop w tx (Suc 0) (log @ [PendingTransactionInformation tx, Sleep 2000])
         = (Inl e3, log @ [PendingTransactionInformation tx, Sleep 2000, PendingTransactionInformation tx, Sleep 2000, PendingTransactionInformation tx])"
    using 2 c by (subst fetch_loop.simps) simp
  have "fetch_loop w tx 0 log
         = (Inl e3, log @ [PendingTransactionInformation tx, Sleep 2000, PendingTransactionInformation tx, Sleep 2000, PendingTransactionInformation tx])"
    using 1 b by (subst fetch_loop.simps) simp
  then show ?thesis by blast
qed

lemma fetch_loop_first:
  assumes "w_pendingTransactionInformation w (length log) tx = Inr txnInfo"
  shows "fetch_loop w tx 0 log = (Inr txnInfo, log @ [PendingTransactionInformation tx])"
  using assms by (subst fetch_loop.simps) simp

lemma verify_fetch_exhausted:
  assumes "\<forall>n. \<exists>e. w_pendingTransactionInformation w n tx = Inl e"
  shows "fst (verifyHealthData w h tx log) = Inr False"
  using fetch_loop_exhausted[OF assms, of log]
  by (auto simp: verifyHealthData_def verify_body_def)

lemma verify_unconfirmed:
  assumes "w_pendingTransactionInformation w (length log) tx = Inr txnInfo"
    and "get_prop txnInfo ''confirmed-round'' = Inr r" "\<not> truthy r"
  shows "verifyHealthData w h tx log = (Inr False, log @ [PendingTransactionInformation tx])"
  using assms fetch_loop_first[OF assms(1)]
  by (auto simp: verifyHealthData_def verify_body_def)

lemma verify_decode_failure:
  assumes "w_pendingTransactionInformation w (length log) tx = Inr txnInfo"
    and "find_note txnInfo = Inr (Some n)" "decode_note w n = Inl e"
  shows "verifyHealthData w h tx log = (Inr False, log @ [PendingTransactionInformation tx])"
  using assms fetch_loop_first[OF assms(1)]
  by (auto simp: verifyHealthData_def verify_body_def split: sum.splits)

lemma fallback_exhausted:
  assumes "\<forall>l. \<not> fallback_attempt w tx h l"
  shows "fst (fallback_loop w tx h (Suc 0) log) = False"
  using assms
  apply (subst fallback_loop.simps, simp)
  apply (subst fallback_loop.simps, simp)
  apply (subst fallback_loop.simps, simp)
  apply (subst fallback_loop.simps, simp)
  done

lemma fallback_attempt_no_note:
  assumes "\<forall>n ti. w_pendingTransactionInformation w n tx = Inr ti \<longrightarrow> findNote ti = None"
  shows "\<not> fallback_attempt w tx h l"
  using assms by (auto simp: fallback_attempt_def split: sum.splits option.splits)

lemma verify_no_note:
  assumes "w_pendingTransactionInformation w (length log) tx = Inr txnInfo"
    and "find_note txnInfo = Inr None"
    and "\<forall>n ti. w_pendingTransactionInformation w n tx = Inr ti \<longrightarrow> findNote ti = None"
  shows "fst (verifyHealthData w h tx log) = Inr False"
proof -
  have "\<forall>l. \<not> fallback_attempt w tx h l"
    using fallback_attempt_no_note[OF assms(3)] by blast
  then have "fst (fallbackVerification w tx h l) = False" for l
    unfolding fallbackVerification_def using fallback_exhausted by simp
  then have fb: "fallbackVerification w tx h l = (False, snd (fallbackVerification w tx h l))" for l
    by (metis prod.collapse)
  show ?thesis
    using assms(2) fetch_loop_first[OF assms(1)]
      fb[of "log @ [PendingTransactionInformation tx]"]
    by (auto simp: verifyHealthData_def verify_body_def split: sum.splits prod.splits)
qed

text \<open>
  C6. For every data hash, transaction id and behaviour of the network,
  \<^verbatim>\<open>verifyHealthData\<close> returns a boolean and never throws. In particular it returns
  false when all three requests for the transaction throw, when the transaction has no
  confirmed round, when the note found cannot be decoded, and when no note is found in
  the first answer nor in any answer the fallback gets.
\<close>

theorem verification_never_raises:
  "(\<exists>b. fst (verifyHealthData w h tx log) = Inr b)
   \<and> ((\<forall>n. \<exists>e. w_pendingTransactionInformation w n tx = Inl e) \<longrightarrow>
         fst (verifyHealthData w h tx log) = Inr False)
   \<and> (\<forall>txnInfo r. w_pendingTransactionInformation w (length log) tx = Inr txnInfo
         \<and> get_prop txnInfo ''confirmed-round'' = Inr r \<and> \<not> truthy r \<longrightarrow>
         fst (verifyHealthData w h tx log) = Inr False)
   \<and> (\<forall>txnInfo n e. w_pendingTransactionInformation w (length log) tx = Inr txnInfo
         \<and> find_note txnInfo = Inr (Some n) \<and> decode_note w n = Inl e \<longrightarrow>
         fst (verifyHealthData w h tx log) = Inr False)
   \<and> (\<forall>txnInfo. w_pendingTransactionInformation w (length log) tx = Inr txnInfo
         \<and> find_note txnInfo = Inr None
         \<and> (\<forall>n ti. w_pendingTransactionInformation w n tx = Inr ti \<longrightarrow> findNote ti = None) \<longrightarrow>
         fst (verifyHealthData w h tx log) = Inr False)"
proof (intro conjI allI impI)
  show "\<exists>b. fst (verifyHealthData w h tx log) = Inr b"
    by (rule verifyHealthData_returns)
next
  assume "\<forall>n. \<exists>e. w_pendingTransactionInformation w n tx = Inl e"
  then show "fst (verifyHealthData w h tx log) = Inr False"
    by (rule verify_fetch_exhausted)
next
  fix txnInfo r
  assume "w_pendingTransactionInformation w (length log) tx = Inr txnInfo
         \<and> get_prop txnInfo ''confirmed-round'' = Inr r \<and> \<not> truthy r"
  then show "fst (verifyHealthData w h tx log) = Inr False"
    using verify_unconfirmed[of w log tx txnInfo r h] by simp
next
  fix txnInfo n e
  assume "w_pendingTransactionInformation w (length log) tx = Inr txnInfo
         \<and> find_note txnInfo = Inr (Some n) \<and> decode_note w n = Inl e"
  then show "fst (verifyHealthData w h tx log) = Inr False"
    using verify_decode_failure[of w log tx txnInfo n e h] by simp
next
  fix txnInfo
  assume "w_pendingTransactionInformation w (length log) tx = Inr txnInfo
         \<and> find_note txnInfo = Inr None
         \<and> (\<forall>n ti. w_pendingTransactionInformation w n tx = Inr ti \<longrightarrow> findNote ti = None)"
  then show "fst (verifyHealthData w h tx log) = Inr False"
    using verify_no_note[of w log tx txnInfo h] by blast
qed

lemma info_facts:
  "get_prop unconfirmed_info ''confirmed-round'' = Inr Undefined"
  "find_note undecodable_info = Inr (Some (Str (cu ''@@@'')))"
  "find_note bare_info = Inr None"
  "findNote bare_info = None"
  by (simp_all add: unconfirmed_info_def undecodable_info_def bare_info_def cu_def find_note_def
        note_at_def is_object_def)

theorem verification_never_raises_witness:
  "(\<forall>n. \<exists>e. w_pendingTransactionInformation poor_world n ''TX1'' = Inl e)
   \<and> fst (verifyHealthData poor_world ''abc123'' ''TX1'' []) = Inr False
   \<and> w_pendingTransactionInformation (answering_world unconfirmed_info) (length ([] :: event list)) ''TX1''
       = Inr unconfirmed_info
   \<and> get_prop unconfirmed_info ''confirmed-round'' = Inr Undefined \<and> \<not> truthy Undefined
   \<and> fst (verifyHealthData (answering_world unconfirmed_info) ''abc123'' ''TX1'' []) = Inr False
   \<and> w_pendingTransactionInformation (answering_world undecodable_info) (length ([] :: event list)) ''TX1''
       = Inr undecodable_info
   \<and> find_note undecodable_info = Inr (Some (Str (cu ''@@@'')))
   \<and> decode_note (answering_world undecodable_info) (Str (cu ''@@@'')) = Inl (Error ''not text'')
   \<and> fst (verifyHealthData (answering_world undecodable_info) ''abc123'' ''TX1'' []) = Inr False
   \<and> w_pendingTransactionInformation (answering_world bare_info) (length ([] :: event list)) ''TX1''
       = Inr bare_info
   \<and> find_note bare_info = Inr None
   \<and> w_pendingTransactionInformation (answering_world bare_info) = (\<lambda>n t. Inr bare_info)
   \<and> findNote bare_info = None
   \<and> fst (verifyHealthData (answering_world bare_info) ''abc123'' ''TX1'' []) = Inr False"
proof -
  have a: "\<forall>n. \<exists>e. w_pendingTransactionInformation poor_world n ''TX1'' = Inl e"
    by (simp add: poor_world_def)
  have b: "w_pendingTransactionInformation (answering_world unconfirmed_info) (length ([] :: event list)) ''TX1''
       = Inr unconfirmed_info \<and> get_prop unconfirmed_info ''confirmed-round'' = Inr Undefined \<and> \<not> truthy Undefined"
    by (simp add: answering_world_def poor_world_def info_facts)
  have c: "w_pendingTransactionInformation (answering_world undecodable_info) (length ([] :: event list)) ''TX1''
       = Inr undecodable_info \<and> find_note undecodable_info = Inr (Some (Str (cu ''@@@'')))
       \<and> decode_note (answering_world undecodable_info) (Str (cu ''@@@'')) = Inl (Error ''not text'')"
    by (simp add: answering_world_def poor_world_def info_facts decode_note_def)
  have d: "w_pendingTransactionInformation (answering_world bare_info) (length ([] :: event list)) ''TX1''
       = Inr bare_info \<and> find_note bare_info = Inr None
       \<and> (\<forall>n ti. w_pendingTransactionInformation (answering_world bare_info) n ''TX1'' = Inr ti \<longrightarrow> findNote ti = None)"
    by (auto simp: answering_world_def poor_world_def info_facts)
  from a verification_never_raises[of poor_world "''abc123''" "''TX1''" "[]"]
  have ra: "fst (verifyHealthData poor_world ''abc123'' ''TX1'' []) = Inr False" by blast
  from b verification_never_raises[of "answering_world unconfirmed_info" "''abc123''" "''TX1''" "[]"]
  have rb: "fst (verifyHealthData (answering_world unconfirmed_info) ''abc123'' ''TX1'' []) = Inr False" by blast
  from c verification_never_raises[of "answering_world undecodable_info" "''abc123''" "''TX1''" "[]"]
  have rc: "fst (verifyHealthData (answering_world undecodable_info) ''abc123'' ''TX1'' []) = Inr False" by blast
  from d verification_never_raises[of "answering_world bare_info" "''abc123''" "''TX1''" "[]"]
  have rd: "fst (verifyHealthData (answering_world bare_info) ''abc123'' ''TX1'' []) = Inr False" by blast
  have e: "w_pendingTransactionInformation (answering_world bare_info) = (\<lambda>n t. Inr bare_info)
       \<and> findNote bare_info = None"
    by (simp add: answering_world_def poor_world_def info_facts)
  from a b c d e ra rb rc rd show ?thesis by simp
qed

text \<open>
  C9. Without a transaction id, both exported \<^verbatim>\<open>verifyHealthDataOnBlockchain\<close>
  return the value of \<^verbatim>\<open>userAddress && userAddress.length === 58\<close>: no request
  goes to the network and the data hash is not looked at. That value is
  \<^verbatim>\<open>true\<close> exactly when the address is a non-empty string of length 58.
\<close>

theorem verify_without_txid:
  "verifyHealthDataOnBlockchain w h address None log = (Inr (address_check address), log)
   \<and> verifyHealthDataOnBlockchain_lib w h address None log = (Inr (address_check address), log)
   \<and> (address_check address = Bool True \<longleftrightarrow> (\<exists>a. address = Some a \<and> a \<noteq> [] \<and> length a = 58))"
  by (auto simp: verifyHealthDataOnBlockchain_def verifyHealthDataOnBlockchain_lib_def
        address_check_def split: option.splits)

theorem verify_without_txid_witness:
  "verifyHealthDataOnBlockchain poor_world ''abc123'' (Some zeroAddress) None [] = (Inr (Bool True), [])
   \<and> verifyHealthDataOnBlockchain poor_world ''abc123'' (Some ''SHORT'') None [] = (Inr (Bool False), [])
   \<and> verifyHealthDataOnBlockchain poor_world ''abc123'' (Some []) None [] = (Inr (Str []), [])"
  using verify_without_txid[of poor_world "''abc123''" "Some zeroAddress" "[]"]
    verify_without_txid[of poor_world "''abc123''" "Some ''SHORT''" "[]"]
    verify_without_txid[of poor_world "''abc123''" "Some []" "[]"]
  by (simp add: address_check_def zeroAddress_def)

section \<open>JSON: what \<^verbatim>\<open>JSON.stringify\<close> writes, \<^verbatim>\<open>JSON.parse\<close> reads\<close>

lemma hex_digit_mem: "hex_digit n \<in> set ''0123456789abcdef''"
  unfolding hex_digit_def by (rule nth_mem) simp

lemma digit_char_mem: "digit_char n \<in> set ''0123456789''"
  unfolding digit_char_def by (rule nth_mem) simp

lemma below_16: "d < 16 \<Longrightarrow> d \<in> set [0, 1, 2, 3, 4, 5, 6, 7, 8, 9, 10, 11, 12, 13, 14, 15 :: nat]"
  by (simp, arith)

lemma hex_val_hex_digit: "d < 16 \<Longrightarrow> hex_val (hex_digit d) = Some d"
proof -
  have "\<forall>x \<in> set [0, 1, 2, 3, 4, 5, 6, 7, 8, 9, 10, 11, 12, 13, 14, 15 :: nat].
          hex_val (hex_digit x) = Some x"
    by (simp add: hex_val_def hex_digit_def)
  then show "d < 16 \<Longrightarrow> hex_val (hex_digit d) = Some d"
    using below_16 by blast
qed

lemma digit_val_digit_char: "d < 10 \<Longrightarrow> digit_val (digit_char d) = d \<and> is_digit (digit_char d)"
proof -
  assume "d < 10"
  then have "d < 16" by simp
  have "\<forall>x \<in> set [0, 1, 2, 3, 4, 5, 6, 7, 8, 9, 10, 11, 12, 13, 14, 15 :: nat].
          x < 10 \<longrightarrow> digit_val (digit_char x) = x \<and> is_digit (digit_char x)"
    by (simp add: digit_val_def digit_char_def is_digit_def)
  with below_16[OF \<open>d < 16\<close>] \<open>d < 10\<close> show ?thesis by blast
qed

lemma option_pair_id [simp]:
  "(case x of None \<Rightarrow> None | Some (ts, md) \<Rightarrow> Some ([] @ ts, md)) = x"
  by (cases x) auto

lemma lex_unit:
  "lex_run (LStr acc) (quote_unit c @ tl0) = lex_run (LStr (of_char c # acc)) tl0"
proof -
  consider (b) "c = CHR 0x08" | (t) "c = CHR 0x09" | (n) "c = CHR 0x0A" | (f) "c = CHR 0x0C"
    | (r) "c = CHR 0x0D" | (q) "c = dq" | (s) "c = bs"
    | (u) "c \<noteq> CHR 0x08" "c \<noteq> CHR 0x09" "c \<noteq> CHR 0x0A" "c \<noteq> CHR 0x0C" "c \<noteq> CHR 0x0D"
          "c \<noteq> dq" "c \<noteq> bs" "(of_char c :: nat) < 32"
    | (p) "c \<noteq> dq" "c \<noteq> bs" "\<not> (of_char c :: nat) < 32"
          "c \<noteq> CHR 0x08" "c \<noteq> CHR 0x09" "c \<noteq> CHR 0x0A" "c \<noteq> CHR 0x0C" "c \<noteq> CHR 0x0D"
    by blast
  then show ?thesis
  proof cases
    case u
    have hi: "hex_val (hex_digit (of_char c div 16)) = Some (of_char c div 16)"
      using u(8) by (intro hex_val_hex_digit) simp
    have lo: "hex_val (hex_digit (of_char c mod 16)) = Some (of_char c mod 16)"
      by (intro hex_val_hex_digit) simp
    have z: "hex_val (CHR ''0'') = Some 0" by (simp add: hex_val_def)
    show ?thesis using u
      by (simp add: quote_unit_def hi lo z dq_def bs_def)
  qed (simp_all add: quote_unit_def dq_def bs_def unescape_def)
qed

lemma lex_units:
  "lex_run (LStr acc) (concat (map quote_unit s) @ dq # rest) =
     (case lex_run LStart rest of
        None \<Rightarrow> None
      | Some (ts, md) \<Rightarrow> Some (TStr (rev acc @ cu s) # ts, md))"
proof (induction s arbitrary: acc)
  case Nil
  then show ?case by (simp add: cu_def split: option.splits)
next
  case (Cons c s)
  have "lex_run (LStr acc) (concat (map quote_unit (c # s)) @ dq # rest)
        = lex_run (LStr acc) (quote_unit c @ (concat (map quote_unit s) @ dq # rest))"
    by simp
  also have "\<dots> = lex_run (LStr (of_char c # acc)) (concat (map quote_unit s) @ dq # rest)"
    by (rule lex_unit)
  finally show ?case using Cons[of "of_char c # acc"] by (simp add: cu_def split: option.splits)
qed

lemma lex_quote_json:
  "lex_run LStart (quote_json s @ rest) =
     (case lex_run LStart rest of
        None \<Rightarrow> None
      | Some (ts, md) \<Rightarrow> Some (TStr (cu s) # ts, md))"
proof -
  have "lex_step LStart dq = Some ([], LStr [])"
    by (simp add: lex_start_def is_json_ws_def dq_def)
  then show ?thesis
    using lex_units[of "[]" s rest]
    by (simp add: quote_json_def split: option.splits)
qed

lemma show_nat_digits: "c \<in> set (show_nat n) \<Longrightarrow> is_digit c"
proof (induction n rule: show_nat.induct)
  case (1 n)
  show ?case
  proof (cases "n < 10")
    case True
    with "1.prems" show ?thesis using digit_val_digit_char[of n]
      by (subst (asm) show_nat.simps) simp
  next
    case False
    with "1.prems" have "c \<in> set (show_nat (n div 10)) \<or> c = digit_char (n mod 10)"
      by (subst (asm) show_nat.simps) auto
    then show ?thesis
      using "1.IH"[OF False] digit_val_digit_char[of "n mod 10"] by auto
  qed
qed

lemma show_nat_nonempty: "show_nat n \<noteq> []"
  by (subst show_nat.simps) simp

lemma first_digit: "0 < n \<Longrightarrow> n < 10 \<Longrightarrow> digit_char n \<noteq> CHR ''0''"
proof -
  assume "0 < n" "n < 10"
  then have "n < 16" by simp
  have "\<forall>x \<in> set [0, 1, 2, 3, 4, 5, 6, 7, 8, 9, 10, 11, 12, 13, 14, 15 :: nat].
          0 < x \<longrightarrow> x < 10 \<longrightarrow> digit_char x \<noteq> CHR ''0''"
    by (simp add: digit_char_def)
  with below_16[OF \<open>n < 16\<close>] \<open>0 < n\<close> \<open>n < 10\<close> show ?thesis by blast
qed

lemma show_nat_hd: "0 < n \<Longrightarrow> hd (show_nat n) \<noteq> CHR ''0''"
proof (induction n rule: show_nat.induct)
  case (1 n)
  show ?case
  proof (cases "n < 10")
    case True
    with "1.prems" first_digit show ?thesis by (subst show_nat.simps) simp
  next
    case False
    then have "0 < n div 10" by simp
    from "1.IH"[OF False this] show ?thesis
      using False show_nat_nonempty[of "n div 10"]
      by (subst show_nat.simps) simp
  qed
qed

lemma show_nat_length: "1 < length (show_nat n) \<Longrightarrow> 0 < n"
  by (cases "n = 0") (auto simp: show_nat.simps)

lemma nat_of_digits_snoc: "nat_of_digits (ds @ [c]) = 10 * nat_of_digits ds + digit_val c"
  by (simp add: nat_of_digits_def)

lemma nat_of_digits_show_nat: "nat_of_digits (show_nat n) = n"
proof (induction n rule: show_nat.induct)
  case (1 n)
  show ?case
  proof (cases "n < 10")
    case True
    then show ?thesis using digit_val_digit_char[of n]
      by (subst show_nat.simps) (simp add: nat_of_digits_def)
  next
    case False
    have "nat_of_digits (show_nat n) = 10 * nat_of_digits (show_nat (n div 10)) + digit_val (digit_char (n mod 10))"
      using False by (subst show_nat.simps) (simp add: nat_of_digits_snoc)
    then show ?thesis
      using "1.IH"[OF False] digit_val_digit_char[of "n mod 10"] by simp
  qed
qed

lemma parse_number_digits:
  assumes "ds \<noteq> []" "\<forall>c \<in> set ds. is_digit c" "1 < length ds \<longrightarrow> hd ds \<noteq> CHR ''0''"
  shows "parse_number ds = Some (int (nat_of_digits ds), 0)"
proof -
  from assms obtain d ds' where ds: "ds = d # ds'" by (cases ds) auto
  with assms have d: "is_digit d" by simp
  then have nm: "d \<noteq> CHR ''-''" by (auto simp: is_digit_def)
  have tw: "takeWhile is_digit ds = ds" "dropWhile is_digit ds = []"
    using assms(2) by simp_all
  have s: "strip_prefix_char (CHR ''-'') ds = (False, ds)"
    using ds nm by (simp add: strip_prefix_char_def)
  have f: "parse_fraction [] = Some ([], [])" by (simp add: parse_fraction_def)
  have e: "parse_exponent [] = Some (0, [])" by (simp add: parse_exponent_def)
  show ?thesis
    unfolding parse_number_def s using assms(1,3)
    by (simp add: tw f e)
qed

lemma parse_number_show_nat: "parse_number (show_nat n) = Some (int n, 0)"
proof -
  have "1 < length (show_nat n) \<longrightarrow> hd (show_nat n) \<noteq> CHR ''0''"
    using show_nat_hd[of n] show_nat_length[of n] by blast
  moreover have "\<forall>c \<in> set (show_nat n). is_digit c"
    using show_nat_digits by blast
  ultimately have "parse_number (show_nat n) = Some (int (nat_of_digits (show_nat n)), 0)"
    using show_nat_nonempty by (intro parse_number_digits) auto
  then show ?thesis by (simp only: nat_of_digits_show_nat)
qed

lemma is_digit_num_char: "is_digit c \<Longrightarrow> is_num_char c"
  by (simp add: is_num_char_def)

lemma lex_digits:
  assumes "\<forall>c \<in> set ds. is_digit c"
  shows "lex_run (LNum chunk) (ds @ CHR '','' # rest) =
     (case parse_number (rev chunk @ ds) of
        None \<Rightarrow> None
      | Some (m, e) \<Rightarrow>
          (case lex_run LStart rest of
             None \<Rightarrow> None
           | Some (ts, md) \<Rightarrow> Some (TNum m e # TComma # ts, md)))"
  using assms
proof (induction ds arbitrary: chunk)
  case Nil
  have "\<not> is_num_char (CHR '','')" by (simp add: is_num_char_def is_digit_def)
  moreover have "lex_start (CHR '','') = Some ([TComma], LStart)"
    by (simp add: lex_start_def is_json_ws_def dq_def)
  ultimately show ?case by (simp split: option.splits)
next
  case (Cons d ds)
  then have "is_num_char d" by (simp add: is_digit_num_char)
  then show ?case using Cons.IH[of "d # chunk"] Cons.prems by simp
qed

lemma lex_start_digit: "is_digit d \<Longrightarrow> lex_start d = Some ([], LNum [d])"
proof -
  assume d: "is_digit d"
  then have "\<not> is_json_ws d" "d \<noteq> CHR ''{''" "d \<noteq> CHR ''}''" "d \<noteq> CHR ''[''" "d \<noteq> CHR '']''"
    "d \<noteq> CHR '':''" "d \<noteq> CHR '',''" "d \<noteq> dq" "d \<noteq> CHR ''t''" "d \<noteq> CHR ''f''" "d \<noteq> CHR ''n''"
    by (auto simp: is_digit_def is_json_ws_def dq_def)
  then show ?thesis using d by (simp add: lex_start_def is_digit_num_char)
qed

lemma lex_show_nat:
  "lex_run LStart (show_nat n @ CHR '','' # rest) =
     (case lex_run LStart rest of
        None \<Rightarrow> None
      | Some (ts, md) \<Rightarrow> Some (TNum (int n) 0 # TComma # ts, md))"
proof -
  obtain d ds where e: "show_nat n = d # ds"
    using show_nat_nonempty[of n] by (cases "show_nat n") auto
  then have d: "is_digit d" and ds: "\<forall>c \<in> set ds. is_digit c"
    using show_nat_digits[of _ n] by auto
  have "lex_run LStart (show_nat n @ CHR '','' # rest) = lex_run (LNum [d]) (ds @ CHR '','' # rest)"
    using e lex_start_digit[OF d] by simp
  also have "\<dots> = (case parse_number (d # ds) of
        None \<Rightarrow> None
      | Some (m, e) \<Rightarrow>
          (case lex_run LStart rest of
             None \<Rightarrow> None
           | Some (ts, md) \<Rightarrow> Some (TNum m e # TComma # ts, md)))"
    using lex_digits[OF ds, of "[d]" rest] by simp
  finally show ?thesis using parse_number_show_nat[of n] e by simp
qed

lemma lex_punct:
  "lex_run LStart (CHR ''{'' # r) = (case lex_run LStart r of None \<Rightarrow> None | Some (ts, md) \<Rightarrow> Some (TLBrace # ts, md))"
  "lex_run LStart (CHR ''}'' # r) = (case lex_run LStart r of None \<Rightarrow> None | Some (ts, md) \<Rightarrow> Some (TRBrace # ts, md))"
  "lex_run LStart (CHR '':'' # r) = (case lex_run LStart r of None \<Rightarrow> None | Some (ts, md) \<Rightarrow> Some (TColon # ts, md))"
  "lex_run LStart (CHR '','' # r) = (case lex_run LStart r of None \<Rightarrow> None | Some (ts, md) \<Rightarrow> Some (TComma # ts, md))"
  "lex_run LStart (CHR ''|'' # r) = None"
  by (simp_all add: lex_start_def is_json_ws_def dq_def is_num_char_def is_digit_def split: option.splits)

lemma lex_jsonNote:
  "lex_run LStart (jsonNote f ts @ rest) =
     (case lex_run LStart rest of
        None \<Rightarrow> None
      | Some (tks, md) \<Rightarrow> Some (note_tokens f ts @ tks, md))"
  by (simp del: lex_run.simps add: jsonNote_def lex_punct lex_quote_json lex_show_nat
        note_tokens_def split: option.splits)

lemma tokenize_jsonNote: "tokenize (jsonNote f ts) = Some (note_tokens f ts)"
  using lex_jsonNote[of f ts "[]"] by (simp add: tokenize_def)

lemma parse_jsonNote:
  "JSON_parse (jsonNote f ts) =
     Some (Obj [(cu ''type'', Str (cu ''HEALTH_DATA'')), (cu ''hash'', Str (cu f)),
                (cu ''timestamp'', Num (int ts) 0), (cu ''version'', Str (cu ''1.0'')),
                (cu ''app'', Str (cu ''HealthGuardian''))])"
  by (simp add: JSON_parse_def tokenize_jsonNote note_tokens_def)

lemma cu_inj: "cu a = cu b \<longleftrightarrow> a = b"
  unfolding cu_def by (rule inj_map_eq_map) (rule inj_of_char)

lemma json_format_ok_jsonNote: "json_format_ok (jsonNote f ts) h \<longleftrightarrow> f = h"
  by (simp add: json_format_ok_def parse_jsonNote cu_inj)

lemma parse_note_with_bar: "JSON_parse (jsonNote f ts @ CHR ''|'' # r) = None"
  using lex_jsonNote[of f ts "CHR ''|'' # r"]
  by (simp del: lex_run.simps add: JSON_parse_def tokenize_def lex_punct)

section \<open>The note: what is written is accepted\<close>

lemma verifyNotePart_includes: "js_includes s h \<Longrightarrow> verifyNotePart s h"
  by (simp add: verifyNotePart_def)

lemma verifyNoteString_whole: "verifyNotePart s h \<Longrightarrow> verifyNoteString s h"
  by (simp add: verifyNoteString_def Let_def)

lemma finalNote_legacy: "\<exists>a b. finalNote f ts = a @ legacyNote f @ b"
proof (cases "1000 < length (combinedNote f ts)")
  case True
  then have "finalNote f ts = (jsonNote f ts @ separator) @ legacyNote f @ []"
    by (simp add: finalNote_def)
  then show ?thesis by blast
next
  case False
  then have "finalNote f ts = (jsonNote f ts @ separator) @ legacyNote f @ (separator @ simpleNote f)"
    by (simp add: finalNote_def combinedNote_def)
  then show ?thesis by blast
qed

lemma finalNote_includes_hash: "js_includes (finalNote f ts) f"
proof -
  obtain a b where "finalNote f ts = a @ legacyNote f @ b"
    using finalNote_legacy by blast
  then have "finalNote f ts = (a @ ''HEALTH_DATA:'') @ f @ b"
    by (simp add: legacyNote_def)
  then show ?thesis
    by (metis js_includes_append_right)
qed

lemma finalNote_accepts_substring:
  "js_includes f1 f2 \<Longrightarrow> verifyNoteString (finalNote f1 ts) f2"
  by (intro verifyNoteString_whole verifyNotePart_includes
        js_includes_trans[OF finalNote_includes_hash])

text \<open>
  C1 (round trip). For every data hash \<open>f\<close> and every time stamp, the note that
  \<^verbatim>\<open>storeHealthData\<close> builds (the JSON format, \<^verbatim>\<open>HEALTH_DATA:\<close> + f and,
  when it fits, \<^verbatim>\<open>HG_\<close> + f, joined by \<^verbatim>\<open>|||\<close>) is accepted by the check of
  \<^verbatim>\<open>verifyHealthData\<close> against the same hash.
\<close>

theorem note_round_trip: "verifyNoteString (finalNote f ts) f"
  by (intro verifyNoteString_whole verifyNotePart_includes finalNote_includes_hash)

theorem note_round_trip_witness:
  "verifyNoteString (finalNote ''abc123'' 1719230000000) ''abc123''"
  by (rule note_round_trip)

text \<open>
  C10 (substring containment is enough). If the expected hash \<open>f\<close> occurs in a segment
  of the decoded note \<open>s\<close>, the segments being those separated by \<^verbatim>\<open>|||\<close> or
  by \<^verbatim>\<open>|\<close>, then the check of \<open>s\<close> against \<open>f\<close> succeeds, whatever the
  format of the segment.
\<close>

theorem substring_accepted:
  assumes "seg \<in> set (js_split separator s) \<or> seg \<in> set (js_split ''|'' s)"
    and "js_includes seg f"
  shows "verifyNoteString s f"
proof -
  from assms(1) have "sublist seg s" using js_split_sublist by blast
  then have "js_includes s seg" by (simp add: js_includes_sublist)
  then have "js_includes s f" using assms(2) js_includes_trans by blast
  then show ?thesis by (intro verifyNoteString_whole verifyNotePart_includes)
qed

theorem substring_accepted_witness:
  "(''xyzHG_abc'' \<in> set (js_split separator ''xyzHG_abc|||q'')
      \<or> ''xyzHG_abc'' \<in> set (js_split ''|'' ''xyzHG_abc|||q''))
   \<and> js_includes ''xyzHG_abc'' ''abc'' \<and> verifyNoteString ''xyzHG_abc|||q'' ''abc''"
proof -
  have a: "''xyzHG_abc'' \<in> set (js_split separator ''xyzHG_abc|||q'')
             \<or> ''xyzHG_abc'' \<in> set (js_split ''|'' ''xyzHG_abc|||q'')"
    by (simp add: separator_def)
  have b: "js_includes ''xyzHG_abc'' ''abc''" by simp
  show ?thesis
    by (intro conjI a b substring_accepted[OF a b])
qed

section \<open>The note: which other hashes are accepted\<close>

lemma js_split_no_bar:
  assumes "CHR ''|'' \<notin> set a"
  shows "js_split (CHR ''|'' # sep') a = [a]"
  using assms by (induction a) auto

lemma js_split_at_bar:
  assumes "CHR ''|'' \<notin> set a"
  shows "js_split (CHR ''|'' # sep') (a @ (CHR ''|'' # sep') @ r) = a # js_split (CHR ''|'' # sep') r"
  using assms
proof (induction a)
  case Nil
  have "js_split (CHR ''|'' # sep') ((CHR ''|'' # sep') @ r)
        = [] # js_split (CHR ''|'' # sep') (drop (length (CHR ''|'' # sep')) ((CHR ''|'' # sep') @ r))"
    by simp
  then show ?case by simp
next
  case (Cons x a)
  then show ?case by simp
qed

lemma js_trim_sublist: "sublist (js_trim s) s"
proof -
  have "prefix (rev (dropWhile is_space (rev (dropWhile is_space s)))) (dropWhile is_space s)"
    by (metis prefix_def rev_append rev_rev_ident takeWhile_dropWhile_id)
  then have "sublist (js_trim s) (dropWhile is_space s)"
    unfolding js_trim_def by (rule prefix_imp_sublist)
  moreover have "sublist (dropWhile is_space s) s"
    by (rule sublist_dropWhile)
  ultimately show ?thesis
    using sublist_order.order_trans by blast
qed

lemma js_trim_start:
  assumes "js_startsWith (js_trim s) [c]"
  shows "js_startsWith (dropWhile is_space s) [c]"
proof -
  have "prefix (js_trim s) (dropWhile is_space s)"
    unfolding js_trim_def
    by (metis prefix_def rev_append rev_rev_ident takeWhile_dropWhile_id)
  with assms show ?thesis
    unfolding js_startsWith_def using prefix_order.order_trans by blast
qed

lemma js_trim_id:
  assumes "s \<noteq> []" "\<not> is_space (hd s)" "\<not> is_space (last s)"
  shows "js_trim s = s"
proof -
  from assms have 1: "dropWhile is_space s = s"
    by (cases s) auto
  from assms have "rev s \<noteq> []" "\<not> is_space (hd (rev s))"
    by (simp_all add: hd_rev)
  then have 2: "dropWhile is_space (rev s) = rev s"
    by (cases "rev s") auto
  show ?thesis by (simp add: js_trim_def 1 2)
qed

lemma quote_unit_bar: "CHR ''|'' \<in> set (quote_unit c) \<Longrightarrow> c = CHR ''|''"
  using hex_digit_mem[of "of_char c div 16"] hex_digit_mem[of "of_char c mod 16"]
  by (auto simp: quote_unit_def dq_def bs_def split: if_splits)

lemma quote_json_bar: "CHR ''|'' \<notin> set f \<Longrightarrow> CHR ''|'' \<notin> set (quote_json f)"
  using quote_unit_bar by (auto simp: quote_json_def dq_def)

lemma show_nat_bar: "CHR ''|'' \<notin> set (show_nat n)"
  using show_nat_digits[of "CHR ''|''" n] by (auto simp: is_digit_def)

lemma jsonNote_bar: "CHR ''|'' \<notin> set f \<Longrightarrow> CHR ''|'' \<notin> set (jsonNote f ts)"
  using quote_json_bar[of f] quote_json_bar[of "''type''"] quote_json_bar[of "''HEALTH_DATA''"]
    quote_json_bar[of "''hash''"] quote_json_bar[of "''timestamp''"] quote_json_bar[of "''version''"]
    quote_json_bar[of "''1.0''"] quote_json_bar[of "''app''"] quote_json_bar[of "''HealthGuardian''"]
    show_nat_bar[of ts]
  by (simp add: jsonNote_def)

lemma jsonNote_shape: "\<exists>m. jsonNote f ts = CHR ''{'' # m @ ''}''"
  by (simp add: jsonNote_def)

lemma js_trim_jsonNote: "js_trim (jsonNote f ts) = jsonNote f ts"
proof -
  obtain m where m: "jsonNote f ts = CHR ''{'' # m @ ''}''" using jsonNote_shape by blast
  show ?thesis unfolding m
    by (rule js_trim_id) (simp_all add: is_space_def)
qed

lemma verifyParts_iff: "verifyParts ps h \<longleftrightarrow> (\<exists>p \<in> set ps. verifyNotePart (js_trim p) h)"
  by (induction ps) auto

lemma verifyNotePart_json_only:
  assumes "\<not> js_includes s h" "sublist p s" "verifyNotePart p h"
  shows "js_startsWith p ''{'' \<and> json_format_ok p h"
proof (rule ccontr)
  assume n: "\<not> (js_startsWith p ''{'' \<and> json_format_ok p h)"
  have inc: "\<not> js_includes p h"
    using assms(1,2) js_includes_sublist sublist_order.order_trans by blast
  have "sublist h (x @ h)" for x
    using sublist_appendI[of h x "[]"] by simp
  then have a: "\<not> js_includes p (x @ h)" for x
    using inc js_includes_sublist sublist_order.order_trans by blast
  have b: "p \<noteq> x @ h" for x
    using inc js_includes_append_right[of x h "[]"] by auto
  from assms(3) have "js_startsWith p ''{'' \<and> json_format_ok p h"
    unfolding verifyNotePart_def
    by (simp only: inc a b simp_thms if_False split: if_splits)
  with n show False by blast
qed

lemma segment_rejected:
  assumes ni: "\<not> js_includes s h" and sub: "sublist q s"
    and q: "q = jsonNote f ts \<and> f \<noteq> h \<or> q = [] \<or> q = legacyNote f \<or> q = simpleNote f"
  shows "\<not> verifyNotePart (js_trim q) h"
proof
  assume v: "verifyNotePart (js_trim q) h"
  have "sublist (js_trim q) s"
    using js_trim_sublist sub sublist_order.order_trans by blast
  from verifyNotePart_json_only[OF ni this v]
  have st: "js_startsWith (js_trim q) ''{''" and ok: "json_format_ok (js_trim q) h" by auto
  from js_trim_start[OF st] have d: "js_startsWith (dropWhile is_space q) ''{''" .
  from q consider "q = jsonNote f ts" "f \<noteq> h" | "q = []" | "q = legacyNote f" | "q = simpleNote f"
    by blast
  then show False
  proof cases
    case 1
    with ok show False by (simp add: js_trim_jsonNote json_format_ok_jsonNote)
  next
    case 2
    with d show False by (simp add: js_startsWith_def)
  next
    case 3
    with d show False by (simp add: js_startsWith_def legacyNote_def is_space_def)
  next
    case 4
    with d show False by (simp add: js_startsWith_def simpleNote_def is_space_def)
  qed
qed

lemma legacyNote_bar: "CHR ''|'' \<notin> set f \<Longrightarrow> CHR ''|'' \<notin> set (legacyNote f)"
  by (simp add: legacyNote_def)

lemma simpleNote_bar: "CHR ''|'' \<notin> set f \<Longrightarrow> CHR ''|'' \<notin> set (simpleNote f)"
  by (simp add: simpleNote_def)

lemma finalNote_cases:
  "finalNote f ts = jsonNote f ts @ ''|||'' @ legacyNote f
   \<or> finalNote f ts = jsonNote f ts @ ''|||'' @ legacyNote f @ ''|||'' @ simpleNote f"
  by (simp add: finalNote_def combinedNote_def separator_def)

lemma finalNote_segments3:
  assumes "CHR ''|'' \<notin> set f"
  shows "set (js_split ''|||'' (finalNote f ts)) \<subseteq> {jsonNote f ts, legacyNote f, simpleNote f}"
proof -
  note j = jsonNote_bar[OF assms, of ts] and l = legacyNote_bar[OF assms] and s = simpleNote_bar[OF assms]
  have 1: "js_split ''|||'' (jsonNote f ts @ ''|||'' @ legacyNote f) = [jsonNote f ts, legacyNote f]"
    using js_split_at_bar[OF j, of "''||''" "legacyNote f"] js_split_no_bar[OF l, of "''||''"]
    by simp
  have 2: "js_split ''|||'' (jsonNote f ts @ ''|||'' @ legacyNote f @ ''|||'' @ simpleNote f)
           = [jsonNote f ts, legacyNote f, simpleNote f]"
    using js_split_at_bar[OF j, of "''||''" "legacyNote f @ ''|||'' @ simpleNote f"]
      js_split_at_bar[OF l, of "''||''" "simpleNote f"] js_split_no_bar[OF s, of "''||''"]
    by simp
  from finalNote_cases[of f ts] 1 2 show ?thesis by auto
qed

lemma js_split_bars:
  assumes "CHR ''|'' \<notin> set a"
  shows "js_split ''|'' (a @ ''|||'' @ r) = a # [] # [] # js_split ''|'' r"
proof -
  have "js_split ''|'' (a @ ''|'' @ (''||'' @ r)) = a # js_split ''|'' (''||'' @ r)"
    by (rule js_split_at_bar[OF assms])
  then show ?thesis by simp
qed

lemma finalNote_segments1:
  assumes "CHR ''|'' \<notin> set f"
  shows "set (js_split ''|'' (finalNote f ts)) \<subseteq> {jsonNote f ts, [], legacyNote f, simpleNote f}"
proof -
  note j = jsonNote_bar[OF assms, of ts] and l = legacyNote_bar[OF assms] and s = simpleNote_bar[OF assms]
  have 1: "js_split ''|'' (jsonNote f ts @ ''|||'' @ legacyNote f) = [jsonNote f ts, [], [], legacyNote f]"
    using js_split_bars[OF j, of "legacyNote f"] js_split_no_bar[OF l, of "[]"]
    by simp
  have 2: "js_split ''|'' (jsonNote f ts @ ''|||'' @ legacyNote f @ ''|||'' @ simpleNote f)
           = [jsonNote f ts, [], [], legacyNote f, [], [], simpleNote f]"
    using js_split_bars[OF j, of "legacyNote f @ ''|||'' @ simpleNote f"]
      js_split_bars[OF l, of "simpleNote f"] js_split_no_bar[OF s, of "[]"]
    by simp
  from finalNote_cases[of f ts] 1 2 show ?thesis by auto
qed

lemma finalNote_not_json: "\<not> json_format_ok (finalNote f ts) h"
proof -
  from finalNote_cases[of f ts] obtain r where "finalNote f ts = jsonNote f ts @ CHR ''|'' # r"
    by auto
  then show ?thesis
    by (simp add: json_format_ok_def parse_note_with_bar)
qed

lemma verifyParts_finalNote:
  assumes nb: "CHR ''|'' \<notin> set f1" and ni: "\<not> js_includes (finalNote f1 ts) f2"
    and sp: "set ps \<subseteq> {jsonNote f1 ts, [], legacyNote f1, simpleNote f1}"
    and sub: "\<forall>p \<in> set ps. sublist p (finalNote f1 ts)"
  shows "\<not> verifyParts ps f2"
proof -
  have ne: "f1 \<noteq> f2" using ni finalNote_includes_hash by blast
  have "\<not> verifyNotePart (js_trim p) f2" if "p \<in> set ps" for p
  proof (rule segment_rejected[OF ni])
    show "sublist p (finalNote f1 ts)" using sub that by blast
    show "p = jsonNote f1 ts \<and> f1 \<noteq> f2 \<or> p = [] \<or> p = legacyNote f1 \<or> p = simpleNote f1"
      using sp that ne by blast
  qed
  then show ?thesis by (simp add: verifyParts_iff)
qed

lemma finalNote_rejects:
  assumes nb: "CHR ''|'' \<notin> set f1" and ni: "\<not> js_includes (finalNote f1 ts) f2"
  shows "\<not> verifyNoteString (finalNote f1 ts) f2"
proof -
  have a: "\<not> verifyParts (js_split separator (finalNote f1 ts)) f2"
    using finalNote_segments3[OF nb, of ts] js_split_sublist
    by (intro verifyParts_finalNote[OF nb ni]) (auto simp: separator_def)
  have b: "\<not> verifyParts (js_split ''|'' (finalNote f1 ts)) f2"
    using finalNote_segments1[OF nb, of ts] js_split_sublist
    by (intro verifyParts_finalNote[OF nb ni]) auto
  have c: "\<not> verifyNotePart (finalNote f1 ts) f2"
    using verifyNotePart_json_only[OF ni sublist_order.order_refl] finalNote_not_json by blast
  show ?thesis
    using a b c by (simp add: verifyNoteString_def Let_def)
qed

lemma sublist_at_delimiter:
  assumes "d \<notin> set h" "sublist h (a @ d # b)"
  shows "sublist h a \<or> sublist h b"
proof -
  from assms(2) consider "sublist h a" | "sublist h (d # b)"
    | xs1 xs2 where "h = xs1 @ xs2" "suffix xs1 a" "prefix xs2 (d # b)"
    unfolding sublist_append by blast
  then show ?thesis
  proof cases
    case 1
    then show ?thesis by simp
  next
    case 2
    then have "prefix h (d # b) \<or> sublist h b" by (simp add: sublist_Cons_right)
    then show ?thesis
    proof
      assume "prefix h (d # b)"
      with assms(1) have "h = []" by (cases h) auto
      then show ?thesis by simp
    next
      assume "sublist h b"
      then show ?thesis by simp
    qed
  next
    case 3
    from 3(1) assms(1) have "d \<notin> set xs2" by simp
    with 3(3) have "xs2 = []" by (cases xs2) auto
    with 3(1,2) have "suffix h a" by simp
    then show ?thesis by (simp add: suffix_imp_sublist)
  qed
qed

lemma sublist_same_length:
  assumes "sublist h a" "length a = length h"
  shows "h = a"
proof -
  from assms(1) obtain ps ss where "a = ps @ h @ ss" by (auto simp: sublist_def)
  with assms(2) show ?thesis by simp
qed

lemma skip_short:
  assumes "d \<notin> set h" "length a < length h" "sublist h (a @ d # b)"
  shows "sublist h b"
proof -
  have "\<not> sublist h a"
    using assms(2) sublist_length_le[of h a] by auto
  with sublist_at_delimiter[OF assms(1,3)] show ?thesis by simp
qed

lemma skip_same:
  assumes "d \<notin> set h" "length a = length h" "a \<noteq> h" "sublist h (a @ d # b)"
  shows "sublist h b"
proof -
  have "\<not> sublist h a"
    using assms(2,3) sublist_same_length[of h a] by auto
  with sublist_at_delimiter[OF assms(1,4)] show ?thesis by simp
qed

lemma show_nat_length_le: "0 < k \<Longrightarrow> n < 10 ^ k \<Longrightarrow> length (show_nat n) \<le> k"
proof (induction n arbitrary: k rule: show_nat.induct)
  case (1 n)
  show ?case
  proof (cases "n < 10")
    case True
    with 1(2) show ?thesis by (subst show_nat.simps) simp
  next
    case False
    with 1(2,3) have k: "1 < k" by (cases "k = 1") auto
    then obtain k' where k': "k = Suc k'" "0 < k'" by (cases k) auto
    with 1(3) have "n div 10 < 10 ^ k'" by (simp add: less_mult_imp_div_less mult.commute)
    from 1(1)[OF False k'(2) this] k'(1) False show ?thesis
      by (subst show_nat.simps) simp
  qed
qed

lemma sha256_hex_avoids:
  assumes "sha256_hex h" "d \<notin> set ''0123456789abcdef''"
  shows "d \<notin> set h"
proof
  assume "d \<in> set h"
  with assms(1) have "d \<in> set ''0123456789abcdef''"
    unfolding sha256_hex_def list_all_iff by blast
  with assms(2) show False by blast
qed

lemma sha256_hex_chars:
  assumes "sha256_hex h"
  shows "dq \<notin> set h" "CHR '':'' \<notin> set h" "CHR '','' \<notin> set h" "CHR ''|'' \<notin> set h" "CHR ''_'' \<notin> set h"
    "length h = 64"
proof -
  show "dq \<notin> set h" by (rule sha256_hex_avoids[OF assms]) (simp add: dq_def)
  show "CHR '':'' \<notin> set h" by (rule sha256_hex_avoids[OF assms]) simp
  show "CHR '','' \<notin> set h" by (rule sha256_hex_avoids[OF assms]) simp
  show "CHR ''|'' \<notin> set h" by (rule sha256_hex_avoids[OF assms]) simp
  show "CHR ''_'' \<notin> set h" by (rule sha256_hex_avoids[OF assms]) simp
  show "length h = 64" using assms by (simp add: sha256_hex_def)
qed

lemma quote_unit_hex: "c \<in> set ''0123456789abcdef'' \<Longrightarrow> quote_unit c = [c]"
  by (auto simp: quote_unit_def dq_def bs_def)

lemma quote_json_plain: "\<forall>c \<in> set s. quote_unit c = [c] \<Longrightarrow> quote_json s = dq # s @ [dq]"
  by (induction s) (auto simp: quote_json_def)

lemma quote_json_hex:
  assumes "sha256_hex f"
  shows "quote_json f = dq # f @ [dq]"
proof (rule quote_json_plain, rule ballI)
  fix c assume "c \<in> set f"
  with assms have "c \<in> set ''0123456789abcdef''"
    unfolding sha256_hex_def list_all_iff by blast
  then show "quote_unit c = [c]" by (rule quote_unit_hex)
qed

lemma jsonNote_pieces:
  assumes "quote_json f = dq # f @ [dq]"
  shows "\<exists>a1 a2 a3. jsonNote f ts = a1 @ dq # f @ dq # a2 @ CHR '':'' # show_nat ts @ CHR '','' # a3
           \<and> length a1 = 29 \<and> length a2 = 12 \<and> length a3 = 39"
proof (intro exI conjI)
  show "jsonNote f ts =
      (''{'' @ quote_json ''type'' @ '':'' @ quote_json ''HEALTH_DATA'' @ '','' @ quote_json ''hash'' @ '':'')
      @ dq # f @ dq # ('','' @ quote_json ''timestamp'') @ CHR '':'' # show_nat ts @ CHR '','' #
      (quote_json ''version'' @ '':'' @ quote_json ''1.0'' @ '','' @ quote_json ''app'' @ '':''
        @ quote_json ''HealthGuardian'' @ ''}'')"
    by (simp add: jsonNote_def assms)
  show "length (''{'' @ quote_json ''type'' @ '':'' @ quote_json ''HEALTH_DATA'' @ '','' @ quote_json ''hash'' @ '':'') = 29"
    by (simp add: quote_json_def quote_unit_def dq_def bs_def)
  show "length ('','' @ quote_json ''timestamp'') = 12"
    by (simp add: quote_json_def quote_unit_def dq_def bs_def)
  show "length (quote_json ''version'' @ '':'' @ quote_json ''1.0'' @ '','' @ quote_json ''app'' @ '':''
        @ quote_json ''HealthGuardian'' @ ''}'') = 39"
    by (simp add: quote_json_def quote_unit_def dq_def bs_def)
qed

lemma digest_not_in_note:
  assumes f1: "sha256_hex f1" and f2: "sha256_hex f2" and ne: "f1 \<noteq> f2" and ts: "ts < 10 ^ 16"
  shows "\<not> js_includes (finalNote f1 ts) f2"
proof
  assume "js_includes (finalNote f1 ts) f2"
  then have s: "sublist f2 (finalNote f1 ts)" by (simp add: js_includes_sublist)
  note c = sha256_hex_chars[OF f2] and l1 = sha256_hex_chars(6)[OF f1]
  obtain a1 a2 a3 where j: "jsonNote f1 ts = a1 @ dq # f1 @ dq # a2 @ CHR '':'' # show_nat ts @ CHR '','' # a3"
    and la: "length a1 = 29" "length a2 = 12" "length a3 = 39"
    using jsonNote_pieces[OF quote_json_hex[OF f1], of ts] by blast
  have lt: "length (show_nat ts) \<le> 16"
    using show_nat_length_le[of 16 ts] ts by simp
  define tl0 where "tl0 = (if finalNote f1 ts = jsonNote f1 ts @ ''|||'' @ legacyNote f1
                           then [] else ''|||'' @ simpleNote f1)"
  have fin: "finalNote f1 ts = jsonNote f1 ts @ ''|||'' @ legacyNote f1 @ tl0"
    using finalNote_cases[of f1 ts] by (auto simp: tl0_def)
  have "sublist f2 (a1 @ dq # (f1 @ dq # (a2 @ CHR '':'' # (show_nat ts @ CHR '','' #
          ((a3 @ ''|||HEALTH_DATA'') @ CHR '':'' # (f1 @ tl0))))))"
    using s by (simp add: fin j legacyNote_def)
  then have "sublist f2 (f1 @ dq # (a2 @ CHR '':'' # (show_nat ts @ CHR '','' #
          ((a3 @ ''|||HEALTH_DATA'') @ CHR '':'' # (f1 @ tl0)))))"
    by (rule skip_short[OF c(1), rotated]) (simp add: la c(6))
  then have "sublist f2 (a2 @ CHR '':'' # (show_nat ts @ CHR '','' #
          ((a3 @ ''|||HEALTH_DATA'') @ CHR '':'' # (f1 @ tl0))))"
    by (rule skip_same[OF c(1) _ ne, rotated]) (simp add: l1 c(6))
  then have "sublist f2 (show_nat ts @ CHR '','' # ((a3 @ ''|||HEALTH_DATA'') @ CHR '':'' # (f1 @ tl0)))"
    by (rule skip_short[OF c(2), rotated]) (simp add: la c(6))
  then have "sublist f2 ((a3 @ ''|||HEALTH_DATA'') @ CHR '':'' # (f1 @ tl0))"
    by (rule skip_short[OF c(3), rotated]) (use lt in \<open>simp add: c(6)\<close>)
  then have r: "sublist f2 (f1 @ tl0)"
    by (rule skip_short[OF c(2), rotated]) (simp add: la c(6))
  show False
  proof (cases "tl0 = []")
    case True
    with r have "f2 = f1" by (intro sublist_same_length) (simp_all add: l1 c(6))
    with ne show False by simp
  next
    case False
    then have "tl0 = ''|||'' @ simpleNote f1" by (simp add: tl0_def split: if_splits)
    with r have "sublist f2 (f1 @ CHR ''|'' # (''||HG'' @ CHR ''_'' # f1))"
      by (simp add: simpleNote_def)
    then have "sublist f2 (''||HG'' @ CHR ''_'' # f1)"
      by (rule skip_same[OF c(4) _ ne, rotated]) (simp add: l1 c(6))
    then have "sublist f2 f1"
      by (rule skip_short[OF c(5), rotated]) (simp add: c(6))
    then have "f2 = f1" by (intro sublist_same_length) (simp_all add: l1 c(6))
    with ne show False by simp
  qed
qed

lemma digest_facts:
  "sha256_hex digest_abc" "sha256_hex digest_empty" "digest_abc \<noteq> digest_empty"
  by (simp_all add: sha256_hex_def digest_abc_def digest_empty_def)

lemma jsonNote_timestamp: "\<exists>a b. jsonNote f ts = a @ show_nat ts @ b"
proof -
  have "jsonNote f ts = (''{'' @ quote_json ''type'' @ '':'' @ quote_json ''HEALTH_DATA''
     @ '','' @ quote_json ''hash'' @ '':'' @ quote_json f
     @ '','' @ quote_json ''timestamp'' @ '':'') @ show_nat ts
     @ ('','' @ quote_json ''version'' @ '':'' @ quote_json ''1.0''
     @ '','' @ quote_json ''app'' @ '':'' @ quote_json ''HealthGuardian'' @ ''}'')"
    by (simp add: jsonNote_def)
  then show ?thesis by blast
qed

lemma finalNote_includes_timestamp: "js_includes (finalNote f ts) (show_nat ts)"
proof -
  obtain a b where j: "jsonNote f ts = a @ show_nat ts @ b"
    using jsonNote_timestamp by blast
  from finalNote_cases[of f ts] obtain r where "finalNote f ts = jsonNote f ts @ r" by auto
  then have "finalNote f ts = a @ show_nat ts @ (b @ r)" by (simp add: j)
  then show ?thesis by (metis js_includes_append_right)
qed

lemma show_nat_example: "show_nat 1719230000000 = ''1719230000000''"
  by (simp add: show_nat.simps digit_char_def)

lemma note_example:
  "finalNote ''abc123'' 1719230000000
   = jsonNote ''abc123'' 1719230000000 @ ''|||HEALTH_DATA:abc123|||HG_abc123''"
  "jsonNote ''abc123'' 1719230000000
   = ''{'' @ quote_json ''type'' @ '':'' @ quote_json ''HEALTH_DATA''
     @ '','' @ quote_json ''hash'' @ '':'' @ quote_json ''abc123''
     @ '',''  @ quote_json ''timestamp'' @ '':1719230000000,'' @ quote_json ''version'' @ '':''
     @ quote_json ''1.0'' @ '','' @ quote_json ''app'' @ '':'' @ quote_json ''HealthGuardian'' @ ''}''"
  by (simp_all add: finalNote_def combinedNote_def jsonNote_def quote_json_def quote_unit_def
      dq_def bs_def show_nat_example separator_def legacyNote_def simpleNote_def)

lemma note_example_excludes: "\<not> js_includes (finalNote ''abc123'' 1719230000000) ''abd''"
  by (simp add: note_example quote_json_def quote_unit_def dq_def bs_def)

text \<open>
  C2 (negative round trip). Checking the note written for a hash \<open>f1\<close> against another
  hash \<open>f2\<close> fails when both are SHA-256 digests in hexadecimal (64 characters, as
  \<^verbatim>\<open>createHealthDataHash\<close> computes them) and the time stamp has at most 16 digits.
  In general, for every \<open>f1\<close> without the character \<^verbatim>\<open>|\<close>, the check succeeds
  exactly when \<open>f2\<close> occurs somewhere in the note: in the hash, or in the time stamp
  and the fixed words of the three formats.
\<close>

theorem negative_round_trip:
  "(sha256_hex f1 \<and> sha256_hex f2 \<and> f1 \<noteq> f2 \<and> ts < 10 ^ 16
      \<longrightarrow> \<not> verifyNoteString (finalNote f1 ts) f2)
   \<and> (CHR ''|'' \<notin> set f1
      \<longrightarrow> verifyNoteString (finalNote f1 ts) f2 = js_includes (finalNote f1 ts) f2)"
proof (intro conjI impI)
  assume a: "sha256_hex f1 \<and> sha256_hex f2 \<and> f1 \<noteq> f2 \<and> ts < 10 ^ 16"
  then have "\<not> js_includes (finalNote f1 ts) f2"
    using digest_not_in_note by blast
  moreover from a have "CHR ''|'' \<notin> set f1" using sha256_hex_chars(4) by blast
  ultimately show "\<not> verifyNoteString (finalNote f1 ts) f2"
    by (intro finalNote_rejects)
next
  assume nb: "CHR ''|'' \<notin> set f1"
  show "verifyNoteString (finalNote f1 ts) f2 = js_includes (finalNote f1 ts) f2"
    using finalNote_rejects[OF nb] verifyNoteString_whole verifyNotePart_includes by blast
qed

theorem negative_round_trip_witness:
  "sha256_hex digest_abc \<and> sha256_hex digest_empty \<and> digest_abc \<noteq> digest_empty
   \<and> (1719230000000 :: nat) < 10 ^ 16
   \<and> \<not> verifyNoteString (finalNote digest_abc 1719230000000) digest_empty
   \<and> CHR ''|'' \<notin> set ''abc123''
   \<and> \<not> js_includes (finalNote ''abc123'' 1719230000000) ''abd''
   \<and> \<not> verifyNoteString (finalNote ''abc123'' 1719230000000) ''abd''"
proof -
  have t: "(1719230000000 :: nat) < 10 ^ 16" by simp
  have b: "CHR ''|'' \<notin> set ''abc123''" by simp
  note inst1 = negative_round_trip[of digest_abc digest_empty 1719230000000]
    and inst2 = negative_round_trip[of "''abc123''" "''abd''" 1719230000000]
  from inst1 digest_facts t
  have 1: "\<not> verifyNoteString (finalNote digest_abc 1719230000000) digest_empty" by blast
  from inst2 b note_example_excludes
  have 2: "\<not> verifyNoteString (finalNote ''abc123'' 1719230000000) ''abd''" by blast
  show ?thesis
    by (intro conjI digest_facts t 1 b note_example_excludes 2)
qed

theorem negative_round_trip_counterexample:
  "''0abc1234'' \<noteq> ''17192300''
   \<and> verifyNoteString (finalNote ''0abc1234'' 1719230000000) ''17192300''
   \<and> ''abc123'' \<noteq> ''abc''
   \<and> verifyNoteString (finalNote ''abc123'' 1719230000000) ''abc''"
proof -
  have "js_includes (show_nat 1719230000000) ''17192300''"
    by (simp add: show_nat_example)
  then have "js_includes (finalNote ''0abc1234'' 1719230000000) ''17192300''"
    by (rule js_includes_trans[OF finalNote_includes_timestamp])
  then have a: "verifyNoteString (finalNote ''0abc1234'' 1719230000000) ''17192300''"
    by (intro verifyNoteString_whole verifyNotePart_includes)
  have "js_includes ''abc123'' ''abc''" by simp
  then have b: "verifyNoteString (finalNote ''abc123'' 1719230000000) ''abc''"
    by (rule finalNote_accepts_substring)
  show ?thesis using a b by simp
qed

section \<open>The note: its size\<close>

text \<open>
  \<^verbatim>\<open>combinedNote.length\<close> counts UTF-16 code units; \<^verbatim>\<open>noteBytes\<close> is the UTF-8
  encoding of the note, never shorter.
\<close>

lemma utf8_length_append: "utf8_length (a @ b) = utf8_length a + utf8_length b"
  by (simp add: utf8_length_def)

lemma utf8_length_Cons: "utf8_length (c # s) = (if (of_char c :: nat) < 128 then 1 else 2) + utf8_length s"
  by (simp add: utf8_length_def)

lemma utf8_length_Nil: "utf8_length [] = 0"
  by (simp add: utf8_length_def)

lemma utf8_length_ge: "length s \<le> utf8_length s"
  by (induction s) (simp_all add: utf8_length_Nil utf8_length_Cons)

lemma utf8_length_ascii: "\<forall>c \<in> set s. (of_char c :: nat) < 128 \<Longrightarrow> utf8_length s = length s"
  by (induction s) (simp_all add: utf8_length_Nil utf8_length_Cons)

lemma utf8_length_show_nat: "utf8_length (show_nat n) = length (show_nat n)"
proof (rule utf8_length_ascii, rule ballI)
  fix c assume "c \<in> set (show_nat n)"
  then have "is_digit c" by (rule show_nat_digits)
  then show "(of_char c :: nat) < 128" by (simp add: is_digit_def)
qed

lemma quote_unit_length: "1 \<le> length (quote_unit c)"
  by (simp add: quote_unit_def)

lemma quote_json_length: "length s + 2 \<le> length (quote_json s)"
proof -
  have "length s \<le> length (concat (map quote_unit s))"
  proof (induction s)
    case Nil
    show ?case by simp
  next
    case (Cons c s)
    with quote_unit_length[of c] show ?case by simp
  qed
  then show ?thesis by (simp add: quote_json_def)
qed

lemma key_lengths:
  "length (quote_json ''type'') = 6" "length (quote_json ''HEALTH_DATA'') = 13"
  "length (quote_json ''hash'') = 6" "length (quote_json ''timestamp'') = 11"
  "length (quote_json ''version'') = 9" "length (quote_json ''1.0'') = 5"
  "length (quote_json ''app'') = 5" "length (quote_json ''HealthGuardian'') = 16"
  by (simp_all add: quote_json_def quote_unit_def dq_def bs_def)

lemma key_bytes:
  "utf8_length (quote_json ''type'') = 6" "utf8_length (quote_json ''HEALTH_DATA'') = 13"
  "utf8_length (quote_json ''hash'') = 6" "utf8_length (quote_json ''timestamp'') = 11"
  "utf8_length (quote_json ''version'') = 9" "utf8_length (quote_json ''1.0'') = 5"
  "utf8_length (quote_json ''app'') = 5" "utf8_length (quote_json ''HealthGuardian'') = 16"
  by (simp_all add: quote_json_def quote_unit_def dq_def bs_def utf8_length_def)

lemma jsonNote_length:
  "length (jsonNote f ts) = 82 + length (quote_json f) + length (show_nat ts)"
  by (simp add: jsonNote_def key_lengths)

lemma jsonNote_bytes:
  "utf8_length (jsonNote f ts) = 82 + utf8_length (quote_json f) + length (show_nat ts)"
  by (simp add: jsonNote_def key_bytes utf8_length_append utf8_length_Cons utf8_length_Nil
      utf8_length_show_nat)

lemma legacyNote_bytes: "utf8_length (legacyNote f) = 12 + utf8_length f"
  by (simp add: legacyNote_def utf8_length_Cons)

lemma simpleNote_bytes: "utf8_length (simpleNote f) = 3 + utf8_length f"
  by (simp add: simpleNote_def utf8_length_Cons)

lemma separator_bytes: "utf8_length separator = 3"
  by (simp add: separator_def utf8_length_Cons utf8_length_Nil)

lemma combinedNote_length:
  "length (combinedNote f ts) = 103 + length (quote_json f) + length (show_nat ts) + 2 * length f"
  by (simp add: combinedNote_def jsonNote_length separator_def legacyNote_def simpleNote_def)

lemma long_hash_dropped:
  assumes "463 \<le> length f"
  shows "finalNote f ts = jsonNote f ts @ separator @ legacyNote f"
proof -
  have "1000 < length (combinedNote f ts)"
    using assms quote_json_length[of f] by (simp add: combinedNote_length)
  then show ?thesis by (simp add: finalNote_def)
qed

lemma quote_json_replicate_a:
  "quote_json (replicate n (CHR ''a'')) = dq # replicate n (CHR ''a'') @ [dq]"
  by (rule quote_json_plain) (simp add: quote_unit_def dq_def bs_def)

lemma long_hash_bytes:
  "noteBytes_length (replicate 500 (CHR ''a'')) 1719230000000 = 1112"
proof -
  have u: "utf8_length (replicate 500 (CHR ''a'')) = 500"
    by (subst utf8_length_ascii) simp_all
  have q: "utf8_length (quote_json (replicate 500 (CHR ''a''))) = 502"
    by (simp add: quote_json_replicate_a utf8_length_Cons utf8_length_append utf8_length_Nil u dq_def)
  show ?thesis
    by (simp add: noteBytes_length_def long_hash_dropped utf8_length_append jsonNote_bytes
        separator_bytes legacyNote_bytes q u show_nat_example)
qed

text \<open>
  For a SHA-256 digest and a time stamp of at most 16 digits the three formats are all
  kept and the note has at most 313 bytes.
\<close>

lemma digest_note_size:
  assumes f: "sha256_hex f" and ts: "ts < 10 ^ 16"
  shows "finalNote f ts = combinedNote f ts \<and> noteBytes_length f ts \<le> 313"
proof
  have l: "length f = 64" using f by (rule sha256_hex_chars(6))
  have q: "quote_json f = dq # f @ [dq]" using f by (rule quote_json_hex)
  have t: "length (show_nat ts) \<le> 16" using show_nat_length_le[of 16 ts] ts by simp
  have "length (combinedNote f ts) \<le> 1000"
    using t by (simp add: combinedNote_length q l)
  then show e: "finalNote f ts = combinedNote f ts" by (simp add: finalNote_def)
  have "\<forall>c \<in> set f. (of_char c :: nat) < 128"
  proof
    fix c assume "c \<in> set f"
    with f have "c \<in> set ''0123456789abcdef''"
      unfolding sha256_hex_def list_all_iff by blast
    then show "(of_char c :: nat) < 128" by auto
  qed
  then have u: "utf8_length f = 64" using l by (simp add: utf8_length_ascii)
  show "noteBytes_length f ts \<le> 313"
    using t by (simp add: noteBytes_length_def e combinedNote_def utf8_length_append jsonNote_bytes
        separator_bytes legacyNote_bytes simpleNote_bytes q utf8_length_Cons utf8_length_Nil u dq_def)
qed

text \<open>
  C3 (size ceiling and drop order). The note is compared with 1000 once, by its number of
  code units, and only the \<^verbatim>\<open>HG_\<close> format is dropped then; the JSON format and the
  \<^verbatim>\<open>HEALTH_DATA:\<close> format are both kept whatever their size. So for every data hash
  of 463 characters or more the note that \<^verbatim>\<open>storeHealthData\<close> attaches is the JSON
  format, the separator and the legacy format, and it is longer than 1024 bytes, the
  size that the comment in the code (``max 1024 bytes for Algorand'') says is ensured.
\<close>

theorem note_exceeds_ceiling:
  assumes "463 \<le> length f"
  shows "finalNote f ts = jsonNote f ts @ separator @ legacyNote f \<and> 1024 < noteBytes_length f ts"
proof
  show d: "finalNote f ts = jsonNote f ts @ separator @ legacyNote f"
    using assms by (rule long_hash_dropped)
  have "show_nat ts \<noteq> []" by (rule show_nat_nonempty)
  then have "1 \<le> length (show_nat ts)" by (cases "show_nat ts") auto
  then have "1024 < length (finalNote f ts)"
    using assms quote_json_length[of f]
    by (simp add: d jsonNote_length separator_def legacyNote_def)
  then show "1024 < noteBytes_length f ts"
    using utf8_length_ge[of "finalNote f ts"] by (simp add: noteBytes_length_def)
qed

theorem note_exceeds_ceiling_witness:
  "463 \<le> length (replicate 500 (CHR ''a''))
   \<and> finalNote (replicate 500 (CHR ''a'')) 1719230000000
       = jsonNote (replicate 500 (CHR ''a'')) 1719230000000 @ separator
         @ legacyNote (replicate 500 (CHR ''a''))
   \<and> 1024 < noteBytes_length (replicate 500 (CHR ''a'')) 1719230000000
   \<and> noteBytes_length (replicate 500 (CHR ''a'')) 1719230000000 = 1112"
proof -
  have l: "463 \<le> length (replicate 500 (CHR ''a''))" by simp
  from note_exceeds_ceiling[OF l, of 1719230000000] l long_hash_bytes
  show ?thesis by blast
qed

end
